theory Spec2Isabelle
  imports Complex_Main
begin

section \<open>JavaScript numbers\<close>

text \<open>
  The client computes with JavaScript numbers. A number is modelled as a rational, or one
  of the three non-finite values that division and parsing can produce. The operations of
  this section give the exact result; the rounding of every result to IEEE-754 binary64
  is the subject of the section on binary64 arithmetic below. The sign of zero is not
  part of the model.
\<close>

datatype jsnum = Fin rat | PInf | NInf | NaN

definition inf_of :: "bool \<Rightarrow> jsnum" where
  "inf_of positive = (if positive then PInf else NInf)"

fun js_add :: "jsnum \<Rightarrow> jsnum \<Rightarrow> jsnum" where
  "js_add (Fin a) (Fin b) = Fin (a + b)"
| "js_add NaN y = NaN"
| "js_add x NaN = NaN"
| "js_add PInf NInf = NaN"
| "js_add NInf PInf = NaN"
| "js_add PInf y = PInf"
| "js_add NInf y = NInf"
| "js_add x PInf = PInf"
| "js_add x NInf = NInf"

fun js_mul :: "jsnum \<Rightarrow> jsnum \<Rightarrow> jsnum" where
  "js_mul (Fin a) (Fin b) = Fin (a * b)"
| "js_mul NaN y = NaN"
| "js_mul x NaN = NaN"
| "js_mul PInf (Fin b) = (if b = 0 then NaN else inf_of (0 < b))"
| "js_mul NInf (Fin b) = (if b = 0 then NaN else inf_of (b < 0))"
| "js_mul (Fin a) PInf = (if a = 0 then NaN else inf_of (0 < a))"
| "js_mul (Fin a) NInf = (if a = 0 then NaN else inf_of (a < 0))"
| "js_mul PInf PInf = PInf"
| "js_mul NInf NInf = PInf"
| "js_mul PInf NInf = NInf"
| "js_mul NInf PInf = NInf"

fun js_div :: "jsnum \<Rightarrow> jsnum \<Rightarrow> jsnum" where
  "js_div (Fin a) (Fin b) =
     (if b = 0 then (if a = 0 then NaN else inf_of (0 < a)) else Fin (a / b))"
| "js_div NaN y = NaN"
| "js_div x NaN = NaN"
| "js_div (Fin a) PInf = Fin 0"
| "js_div (Fin a) NInf = Fin 0"
| "js_div PInf (Fin b) = inf_of (0 \<le> b)"
| "js_div NInf (Fin b) = inf_of (b < 0)"
| "js_div x y = NaN"

text \<open>The comparison \<open>x > y\<close>: false as soon as one side is \<open>NaN\<close>.\<close>

fun js_gt :: "jsnum \<Rightarrow> jsnum \<Rightarrow> bool" where
  "js_gt (Fin a) (Fin b) = (b < a)"
| "js_gt NaN y = False"
| "js_gt x NaN = False"
| "js_gt PInf PInf = False"
| "js_gt PInf y = True"
| "js_gt x PInf = False"
| "js_gt NInf y = False"
| "js_gt x NInf = True"

section \<open>\<open>Number.prototype.toFixed\<close> and \<open>parseFloat\<close>\<close>

definition digit_char :: "nat \<Rightarrow> char" where
  "digit_char d = ''0123456789'' ! d"

definition digit_table :: "(char \<times> nat) list" where
  "digit_table =
     [(CHR ''0'', 0), (CHR ''1'', 1), (CHR ''2'', 2), (CHR ''3'', 3), (CHR ''4'', 4),
      (CHR ''5'', 5), (CHR ''6'', 6), (CHR ''7'', 7), (CHR ''8'', 8), (CHR ''9'', 9)]"

definition digit_val :: "char \<Rightarrow> nat option" where
  "digit_val c = map_of digit_table c"

definition is_digit :: "char \<Rightarrow> bool" where
  "is_digit c = (digit_val c \<noteq> None)"

text \<open>The decimal digits of a natural number, most significant first (\<open>0\<close> is \<open>''0''\<close>).\<close>

fun dec :: "nat \<Rightarrow> string" where
  "dec n = (if n < 10 then [digit_char n] else dec (n div 10) @ [digit_char (n mod 10)])"

declare dec.simps [simp del]

definition pad_left :: "nat \<Rightarrow> string \<Rightarrow> string" where
  "pad_left k s = replicate (k - length s) CHR ''0'' @ s"

text \<open>
  \<open>x.toFixed(f)\<close>: a non-finite number prints as its name. Otherwise the sign is split
  off, \<open>n\<close> is the integer nearest to \<open>|x| * 10^f\<close> (the larger one on a tie), and the
  digits of \<open>n\<close> are printed with a point before the last \<open>f\<close> of them, padded with
  zeros so that one digit at least stands before the point. (JavaScript prints a number
  of magnitude \<open>10^21\<close> or more in exponent notation; no value of this program comes
  near that, and the model prints plain digits there too.)
\<close>

fun toFixed :: "nat \<Rightarrow> jsnum \<Rightarrow> string" where
  "toFixed f NaN = ''NaN''"
| "toFixed f PInf = ''Infinity''"
| "toFixed f NInf = ''-Infinity''"
| "toFixed f (Fin x) =
     (let n = nat \<lfloor>\<bar>x\<bar> * 10 ^ f + 1 / 2\<rfloor>;
          a = dec (n div 10 ^ f);
          b = pad_left f (dec (n mod 10 ^ f))
      in (if x < 0 then ''-'' else '''') @ a @ (if f = 0 then '''' else ''.'' @ b))"

definition digits_val :: "string \<Rightarrow> nat" where
  "digits_val s = foldl (\<lambda>acc c. 10 * acc + the (digit_val c)) 0 s"

definition is_prefix :: "string \<Rightarrow> string \<Rightarrow> bool" where
  "is_prefix p s = (take (length p) s = p)"

text \<open>
  \<open>parseFloat(s)\<close>: leading blanks are skipped, then the longest prefix that is a signed
  decimal literal is read: \<open>Infinity\<close>, or digits with an optional point and further
  digits. Anything else is \<open>NaN\<close>. (Exponent parts are not read: \<open>toFixed\<close>, the only
  producer of the strings parsed here, writes none.)
\<close>

definition parse_unsigned :: "string \<Rightarrow> jsnum" where
  "parse_unsigned s =
     (if is_prefix ''Infinity'' s then PInf
      else
        let ip = takeWhile is_digit s;
            rest = dropWhile is_digit s;
            fp = (case rest of c # r \<Rightarrow> if c = CHR ''.'' then takeWhile is_digit r else [] | [] \<Rightarrow> [])
        in if ip = [] \<and> fp = [] then NaN
           else Fin (of_nat (digits_val ip) + of_nat (digits_val fp) / 10 ^ length fp))"

definition js_neg :: "jsnum \<Rightarrow> jsnum" where
  "js_neg x = (case x of Fin a \<Rightarrow> Fin (- a) | PInf \<Rightarrow> NInf | NInf \<Rightarrow> PInf | NaN \<Rightarrow> NaN)"

definition parseFloat :: "string \<Rightarrow> jsnum" where
  "parseFloat s =
     (case dropWhile (\<lambda>c. c = CHR '' '') s of
        [] \<Rightarrow> NaN
      | c # r \<Rightarrow>
          if c = CHR ''-'' then js_neg (parse_unsigned r)
          else if c = CHR ''+'' then parse_unsigned r
          else parse_unsigned (c # r))"

section \<open>The confusion-matrix statistics\<close>

text \<open>
  The component \<open>ConfusionMatrix\<close> receives the matrix \<open>[[tn, fp], [fn, tp]]\<close> of counts
  and computes four display strings. The counts are natural numbers. Here the component
  is written over exact arithmetic; \<open>ConfusionMatrix64\<close> below is the same component with
  every result rounded to binary64, as the program computes it.
\<close>

type_synonym matrix = "(nat \<times> nat) \<times> (nat \<times> nat)"

record confusion_stats =
  accuracy :: string
  precision :: string
  recall :: string
  f1Score :: string

definition num :: "nat \<Rightarrow> jsnum" where
  "num n = Fin (of_nat n)"

definition ConfusionMatrix :: "matrix \<Rightarrow> confusion_stats" where
  "ConfusionMatrix m =
     (case m of ((tn, fp), (fn, tp)) \<Rightarrow>
        let total = js_add (js_add (js_add (num tn) (num fp)) (num fn)) (num tp);
            accuracy = toFixed 1 (js_mul (js_div (js_add (num tn) (num tp)) total) (Fin 100));
            precision = toFixed 1 (js_mul (js_div (num tp) (js_add (num tp) (num fp))) (Fin 100));
            recall = toFixed 1 (js_mul (js_div (num tp) (js_add (num tp) (num fn))) (Fin 100));
            p = parseFloat precision;
            r = parseFloat recall;
            f1Score = (if js_gt (js_add p r) (Fin 0)
                       then toFixed 1 (js_div (js_mul (js_mul (Fin 2) p) r) (js_add p r))
                       else ''N/A'')
        in \<lparr>accuracy = accuracy, precision = precision, recall = recall, f1Score = f1Score\<rparr>)"

text \<open>
  Two properties of numbers: being a percentage, and lying between two others.
\<close>

definition in_percent_range :: "jsnum \<Rightarrow> bool" where
  "in_percent_range x = (case x of Fin v \<Rightarrow> 0 \<le> v \<and> v \<le> 100 | PInf \<Rightarrow> False | NInf \<Rightarrow> False | NaN \<Rightarrow> False)"

fun between_num :: "jsnum \<Rightarrow> jsnum \<Rightarrow> jsnum \<Rightarrow> bool" where
  "between_num (Fin f) (Fin p) (Fin r) = (min p r \<le> f \<and> f \<le> max p r)"
| "between_num f p r = False"

text \<open>Rounding a rational to one decimal place, halves upwards: the number \<open>toFixed 1\<close> prints.\<close>

definition tenths :: "rat \<Rightarrow> rat" where
  "tenths x = of_int \<lfloor>x * 10 + 1 / 2\<rfloor> / 10"

text \<open>
  The statistics as the formulas of the specification give them: percentages with no
  rounding, the F1 score taken over the unrounded precision and recall. They are what the
  component is compared with.
\<close>

definition exact_precision :: "matrix \<Rightarrow> rat" where
  "exact_precision m = (case m of ((tn, fp), (fn, tp)) \<Rightarrow> of_nat tp / of_nat (tp + fp) * 100)"

definition exact_recall :: "matrix \<Rightarrow> rat" where
  "exact_recall m = (case m of ((tn, fp), (fn, tp)) \<Rightarrow> of_nat tp / of_nat (tp + fn) * 100)"

definition exact_accuracy :: "matrix \<Rightarrow> rat" where
  "exact_accuracy m =
     (case m of ((tn, fp), (fn, tp)) \<Rightarrow> of_nat (tn + tp) / of_nat (tn + fp + fn + tp) * 100)"

definition unrounded_f1 :: "matrix \<Rightarrow> rat" where
  "unrounded_f1 m =
     2 * exact_precision m * exact_recall m / (exact_precision m + exact_recall m)"

section \<open>Binary64 arithmetic\<close>

text \<open>
  A JavaScript number is an IEEE-754 binary64 value, and every arithmetic operation, every
  numeric literal and every parsed string gives the exact result rounded to the nearest
  binary64 value, a tie going to the even significand. The functions \<open>js_add\<close>, \<open>js_mul\<close>,
  \<open>js_div\<close> and \<open>parseFloat\<close> above give the exact results; this section adds the rounding.

  \<open>bitlength n\<close> is the number of binary digits of \<open>n\<close>, and \<open>ilog2 a\<close>, for \<open>a > 0\<close>, the
  integer \<open>e\<close> with \<open>2^e \<le> a < 2^(e+1)\<close>.
\<close>

fun bitlength :: "nat \<Rightarrow> nat" where
  "bitlength n = (if n = 0 then 0 else Suc (bitlength (n div 2)))"

declare bitlength.simps [simp del]

definition ilog2 :: "rat \<Rightarrow> int" where
  "ilog2 a = (if 1 \<le> a then int (bitlength (nat \<lfloor>a\<rfloor>)) - 1
              else - int (bitlength (nat (\<lceil>1 / a\<rceil> - 1))))"

text \<open>The nearest integer, a tie going to the even one.\<close>

definition round_even :: "rat \<Rightarrow> int" where
  "round_even y =
     (let f = \<lfloor>y\<rfloor>
      in if y - of_int f < 1 / 2 then f
         else if 1 / 2 < y - of_int f then f + 1
         else if even f then f else f + 1)"

text \<open>
  \<open>round64 x\<close>: the binary64 values between \<open>2^e\<close> and \<open>2^(e+1)\<close> are the multiples of
  \<open>2^(e-52)\<close>; below \<open>2^(-1022)\<close> (the subnormal range) they are the multiples of
  \<open>2^(-1074)\<close>. The magnitude of \<open>x\<close> is rounded to the nearest multiple, and a result that
  reaches \<open>2^1024\<close> is an infinity. (The sign of a zero result is not kept.)
\<close>

definition round64 :: "rat \<Rightarrow> jsnum" where
  "round64 x =
     (if x = 0 then Fin 0
      else let e = max (ilog2 \<bar>x\<bar>) (- 1022);
               n = round_even (\<bar>x\<bar> / 2 powi (e - 52))
           in if (2::rat) ^ 1024 \<le> of_int n * 2 powi (e - 52) then inf_of (0 < x)
              else Fin (sgn x * (of_int n * 2 powi (e - 52))))"

definition fl :: "jsnum \<Rightarrow> jsnum" where
  "fl x = (case x of Fin v \<Rightarrow> round64 v | PInf \<Rightarrow> PInf | NInf \<Rightarrow> NInf | NaN \<Rightarrow> NaN)"

definition add64 :: "jsnum \<Rightarrow> jsnum \<Rightarrow> jsnum" where
  "add64 x y = fl (js_add x y)"

definition mul64 :: "jsnum \<Rightarrow> jsnum \<Rightarrow> jsnum" where
  "mul64 x y = fl (js_mul x y)"

definition div64 :: "jsnum \<Rightarrow> jsnum \<Rightarrow> jsnum" where
  "div64 x y = fl (js_div x y)"

text \<open>A count arrives as a numeric literal, and a parsed string is rounded like any other result.\<close>

definition num64 :: "nat \<Rightarrow> jsnum" where
  "num64 n = round64 (of_nat n)"

definition parseFloat64 :: "string \<Rightarrow> jsnum" where
  "parseFloat64 s = fl (parseFloat s)"

text \<open>
  \<open>ConfusionMatrix64\<close> is the component \<open>ConfusionMatrix\<close> as it runs: the same steps, every
  result rounded to binary64.
\<close>

definition ConfusionMatrix64 :: "matrix \<Rightarrow> confusion_stats" where
  "ConfusionMatrix64 m =
     (case m of ((tn, fp), (fn, tp)) \<Rightarrow>
        let total = add64 (add64 (add64 (num64 tn) (num64 fp)) (num64 fn)) (num64 tp);
            accuracy = toFixed 1 (mul64 (div64 (add64 (num64 tn) (num64 tp)) total) (Fin 100));
            precision = toFixed 1 (mul64 (div64 (num64 tp) (add64 (num64 tp) (num64 fp))) (Fin 100));
            recall = toFixed 1 (mul64 (div64 (num64 tp) (add64 (num64 tp) (num64 fn))) (Fin 100));
            p = parseFloat64 precision;
            r = parseFloat64 recall;
            f1Score = (if js_gt (add64 p r) (Fin 0)
                       then toFixed 1 (div64 (mul64 (mul64 (Fin 2) p) r) (add64 p r))
                       else ''N/A'')
        in \<lparr>accuracy = accuracy, precision = precision, recall = recall, f1Score = f1Score\<rparr>)"

text \<open>
  Names for the numbers of \<open>ConfusionMatrix64\<close> before they are printed, for the expression of
  the F1 score, and for the property that the F1 score lies between precision and recall.
\<close>

definition accuracy64 :: "matrix \<Rightarrow> jsnum" where
  "accuracy64 m =
     (case m of ((tn, fp), (fn, tp)) \<Rightarrow>
        mul64 (div64 (add64 (num64 tn) (num64 tp))
                 (add64 (add64 (add64 (num64 tn) (num64 fp)) (num64 fn)) (num64 tp)))
          (Fin 100))"

definition precision64 :: "matrix \<Rightarrow> jsnum" where
  "precision64 m =
     (case m of ((tn, fp), (fn, tp)) \<Rightarrow>
        mul64 (div64 (num64 tp) (add64 (num64 tp) (num64 fp))) (Fin 100))"

definition recall64 :: "matrix \<Rightarrow> jsnum" where
  "recall64 m =
     (case m of ((tn, fp), (fn, tp)) \<Rightarrow>
        mul64 (div64 (num64 tp) (add64 (num64 tp) (num64 fn))) (Fin 100))"

definition f1_64 :: "jsnum \<Rightarrow> jsnum \<Rightarrow> string" where
  "f1_64 p r =
     (if js_gt (add64 p r) (Fin 0)
      then toFixed 1 (div64 (mul64 (mul64 (Fin 2) p) r) (add64 p r))
      else ''N/A'')"

definition f1_between64 :: "confusion_stats \<Rightarrow> bool" where
  "f1_between64 s =
     between_num (parseFloat64 (f1Score s)) (parseFloat64 (precision s)) (parseFloat64 (recall s))"

text \<open>
  The value of a finite number, and the binary64 value nearest to \<open>k/10\<close>: the number that
  parsing a display string \<open>d.d\<close> gives.
\<close>

definition num_val :: "jsnum \<Rightarrow> rat" where
  "num_val x = (case x of Fin v \<Rightarrow> v | PInf \<Rightarrow> 0 | NInf \<Rightarrow> 0 | NaN \<Rightarrow> 0)"

definition grid64 :: "nat \<Rightarrow> rat" where
  "grid64 k = num_val (round64 (of_nat k / 10))"

section \<open>The result view\<close>



section \<open>The training curves\<close>

record metrics =
  epochs :: "nat list"
  train_accuracy :: "rat list"
  val_accuracy :: "rat list"
  train_loss :: "rat list"
  val_loss :: "rat list"
  confusion_matrix :: matrix

record chart_point =
  epoch :: nat
  trainAccuracy :: "rat option"
  valAccuracy :: "rat option"
  trainLoss :: "rat option"
  valLoss :: "rat option"

text \<open>Reading an array at an index: \<open>undefined\<close> (here \<open>None\<close>) outside the array.\<close>

definition js_index :: "'a list \<Rightarrow> nat \<Rightarrow> 'a option" where
  "js_index xs i = (if i < length xs then Some (xs ! i) else None)"

text \<open>
  \<open>chartData\<close> of \<open>MetricsCharts\<close>: \<open>metrics.epochs.map((epoch, index) => ...)\<close>, one
  record for each epoch, the four curves read at the epoch's index.
\<close>

definition chartData :: "metrics \<Rightarrow> chart_point list" where
  "chartData m =
     map (\<lambda>(index, e).
            \<lparr>epoch = e,
             trainAccuracy = js_index (train_accuracy m) index,
             valAccuracy = js_index (val_accuracy m) index,
             trainLoss = js_index (train_loss m) index,
             valLoss = js_index (val_loss m) index\<rparr>)
         (enumerate 0 (epochs m))"

text \<open>The report that \<open>mockGetMetrics\<close> returns.\<close>

definition mockGetMetrics :: metrics where
  "mockGetMetrics =
     \<lparr>epochs = [1, 2, 3, 4, 5, 6, 7, 8, 9, 10],
      train_accuracy = [52/100, 65/100, 73/100, 79/100, 84/100, 87/100, 90/100, 92/100, 94/100, 95/100],
      val_accuracy = [50/100, 62/100, 70/100, 76/100, 80/100, 83/100, 85/100, 87/100, 88/100, 89/100],
      train_loss = [95/100, 78/100, 62/100, 50/100, 42/100, 35/100, 28/100, 23/100, 19/100, 16/100],
      val_loss = [98/100, 82/100, 68/100, 58/100, 50/100, 45/100, 40/100, 37/100, 35/100, 34/100],
      confusion_matrix = ((4250, 350), (420, 4980))\<rparr>"

section \<open>The API service layer\<close>

subsection \<open>Errors and the response interceptor\<close>

text \<open>
  A response carries a status and a body. The body of a failed request, when there is
  one, may carry the fields \<open>error\<close> and \<open>message\<close>. A missing field, \<open>undefined\<close> and
  \<open>null\<close> are all \<open>None\<close>.
\<close>

record 'd response =
  status :: nat
  data :: 'd

record error_body =
  body_error :: "string option"
  body_message :: "string option"

record axios_error =
  err_response :: "error_body option response option"
  err_message :: "string option"

text \<open>
  What an operation throws: a plain \<open>new Error(message)\<close>, or the interceptor's
  \<open>standardError\<close>, an \<open>Error\<close> that also carries \<open>status\<close> and \<open>originalError\<close>.
\<close>

datatype thrown = Error string | StandardError string nat axios_error

text \<open>A string is truthy when it is present and not empty; \<open>a || b\<close> is \<open>a\<close> when \<open>a\<close> is truthy.\<close>

definition truthy :: "string option \<Rightarrow> bool" where
  "truthy a = (case a of None \<Rightarrow> False | Some s \<Rightarrow> s \<noteq> [])"

definition js_or :: "string option \<Rightarrow> string option \<Rightarrow> string option" where
  "js_or a b = (if truthy a then a else b)"

definition or_literal :: "string option \<Rightarrow> string \<Rightarrow> string" where
  "or_literal a d = (case a of None \<Rightarrow> d | Some s \<Rightarrow> if s \<noteq> [] then s else d)"

text \<open>\<open>error.response?.data?.error\<close> and \<open>error.response?.data?.message\<close>.\<close>

definition data_error :: "axios_error \<Rightarrow> string option" where
  "data_error e = Option.bind (Option.bind (err_response e) data) body_error"

definition data_message :: "axios_error \<Rightarrow> string option" where
  "data_message e = Option.bind (Option.bind (err_response e) data) body_message"

definition standardError :: "axios_error \<Rightarrow> thrown" where
  "standardError e =
     (let message = or_literal (js_or (js_or (data_error e) (data_message e)) (err_message e))
                      ''An unexpected error occurred'';
          st = (case err_response e of
                  None \<Rightarrow> 500
                | Some r \<Rightarrow> if status r \<noteq> 0 then status r else 500)
      in StandardError message st e)"

text \<open>
  A request either is fulfilled with a response or is rejected with an error (no
  connection, a timeout, a status outside 2xx). The interceptor lets a response through
  and replaces an error by its standard form.
\<close>

datatype 'p outcome = Fulfilled "'p response" | Rejected axios_error

definition responseInterceptor :: "'p outcome \<Rightarrow> thrown + 'p response" where
  "responseInterceptor out =
     (case out of Fulfilled r \<Rightarrow> Inr r | Rejected e \<Rightarrow> Inl (standardError e))"

subsection \<open>Requests\<close>

record image_file =
  file_type :: string
  file_size :: nat

record chat_message =
  role :: "string option"
  content :: "string option"

datatype http_method = GET | POST

datatype request_body =
    NoBody
  | FormData "(string \<times> image_file) list"
  | SummaryJson string string
  | ChatJson "chat_message list"

record request =
  req_method :: http_method
  req_url :: string
  req_body :: request_body
  req_content_type :: "string option"

text \<open>
  The backend is a parameter: a function from the request to its outcome. Every request
  that is issued is appended to the list \<open>sent\<close>, so that an operation returns its
  result together with the requests made so far.
\<close>

type_synonym 'p transport = "request \<Rightarrow> 'p outcome"

definition apiClient :: "'p transport \<Rightarrow> request \<Rightarrow> request list \<Rightarrow> (thrown + 'p response) \<times> request list" where
  "apiClient T req sent = (responseInterceptor (T req), sent @ [req])"

definition response_data :: "(thrown + 'p response) \<times> request list \<Rightarrow> (thrown + 'p) \<times> request list" where
  "response_data res = (case res of (Inl err, sent) \<Rightarrow> (Inl err, sent) | (Inr r, sent) \<Rightarrow> (Inr (data r), sent))"

subsection \<open>The five operations\<close>

definition validTypes :: "string list" where
  "validTypes = [''image/jpeg'', ''image/png'', ''image/webp'', ''image/gif'']"

definition maxSize :: nat where
  "maxSize = 10 * 1024 * 1024"

definition predict_request :: "image_file \<Rightarrow> request" where
  "predict_request imageFile =
     \<lparr>req_method = POST, req_url = ''/api/predict'',
      req_body = FormData [(''image'', imageFile)],
      req_content_type = Some ''multipart/form-data''\<rparr>"

definition uploadImageAndPredict :: "'p transport \<Rightarrow> image_file option \<Rightarrow> request list \<Rightarrow> (thrown + 'p) \<times> request list" where
  "uploadImageAndPredict T imageFile sent =
     (case imageFile of
        None \<Rightarrow> (Inl (Error ''No image file provided''), sent)
      | Some f \<Rightarrow>
          if file_type f \<notin> set validTypes
          then (Inl (Error ''Invalid file type. Please upload a JPEG, PNG, WebP, or GIF image.''), sent)
          else if maxSize < file_size f
          then (Inl (Error ''File too large. Maximum size is 10MB.''), sent)
          else response_data (apiClient T (predict_request f) sent))"

definition summary_request :: "string \<Rightarrow> string \<Rightarrow> request" where
  "summary_request text context =
     \<lparr>req_method = POST, req_url = ''/api/gen/summary'',
      req_body = SummaryJson text context, req_content_type = None\<rparr>"

text \<open>The text is \<open>None\<close> when the argument is not a string; the context defaults to the empty string.\<close>

definition summarizeText :: "'p transport \<Rightarrow> string option \<Rightarrow> string option \<Rightarrow> request list \<Rightarrow> (thrown + 'p) \<times> request list" where
  "summarizeText T text context sent =
     (case text of
        None \<Rightarrow> (Inl (Error ''Text is required for summarization''), sent)
      | Some t \<Rightarrow>
          if t = [] then (Inl (Error ''Text is required for summarization''), sent)
          else response_data
                 (apiClient T (summary_request t (case context of None \<Rightarrow> [] | Some c \<Rightarrow> c)) sent))"

datatype chat_argument = NotAnArray | JsArray "chat_message list"

definition chat_request :: "chat_message list \<Rightarrow> request" where
  "chat_request messages =
     \<lparr>req_method = POST, req_url = ''/api/chat'',
      req_body = ChatJson messages, req_content_type = None\<rparr>"

text \<open>The validation loop: the first message without a truthy role or content throws.\<close>

fun validate_messages :: "chat_message list \<Rightarrow> thrown option" where
  "validate_messages [] = None"
| "validate_messages (msg # rest) =
     (if \<not> truthy (role msg) \<or> \<not> truthy (content msg)
      then Some (Error ''Each message must have a role and content'')
      else validate_messages rest)"

definition sendChatMessage :: "'p transport \<Rightarrow> chat_argument \<Rightarrow> request list \<Rightarrow> (thrown + 'p) \<times> request list" where
  "sendChatMessage T messages sent =
     (case messages of
        NotAnArray \<Rightarrow> (Inl (Error ''Messages array is required''), sent)
      | JsArray ms \<Rightarrow>
          if length ms = 0 then (Inl (Error ''Messages array is required''), sent)
          else (case validate_messages ms of
                  Some err \<Rightarrow> (Inl err, sent)
                | None \<Rightarrow> response_data (apiClient T (chat_request ms) sent)))"

definition get_request :: "string \<Rightarrow> request" where
  "get_request url = \<lparr>req_method = GET, req_url = url, req_body = NoBody, req_content_type = None\<rparr>"

definition getMetrics :: "'p transport \<Rightarrow> request list \<Rightarrow> (thrown + 'p) \<times> request list" where
  "getMetrics T sent = response_data (apiClient T (get_request ''/api/metrics'') sent)"

definition checkHealth :: "'p transport \<Rightarrow> request list \<Rightarrow> (thrown + 'p) \<times> request list" where
  "checkHealth T sent = response_data (apiClient T (get_request ''/api/health'') sent)"

section \<open>Evaluating the printing and the parsing\<close>

lemma floor_numeral_div_rat: "\<lfloor>numeral a / numeral b :: rat\<rfloor> = numeral a div numeral b"
  by (metis floor_divide_of_int_eq of_int_numeral)

lemmas print_eval = Let_def dec.simps digit_char_def pad_left_def floor_numeral_div_rat

lemmas parse_eval = Let_def parseFloat_def parse_unsigned_def is_prefix_def is_digit_def js_neg_def
  digit_val_def digit_table_def digits_val_def

lemma parseFloat_NaN: "parseFloat ''NaN'' = NaN"
  by (simp add: parse_eval)

lemma parseFloat_NA: "parseFloat ''N/A'' = NaN"
  by (simp add: parse_eval)

lemma js_add_NaN_right: "js_add x NaN = NaN"
  by (cases x) simp_all

lemma ceiling_numeral_div_rat: "\<lceil>numeral a / numeral b :: rat\<rceil> = - ((- numeral a) div numeral b)"
  by (metis ceiling_divide_eq_div of_int_numeral)

lemmas r64_eval = round64_def ilog2_def round_even_def bitlength.simps
  floor_numeral_div_rat ceiling_numeral_div_rat inf_of_def fl_def add64_def mul64_def div64_def
  num64_def

section \<open>Printing a number and parsing it back\<close>

lemma digit_val_digit_char: "d < 10 \<Longrightarrow> digit_val (digit_char d) = Some d"
proof -
  assume "d < 10"
  then have "d = 0 \<or> d = 1 \<or> d = 2 \<or> d = 3 \<or> d = 4 \<or> d = 5 \<or> d = 6 \<or> d = 7 \<or> d = 8 \<or> d = 9"
    by arith
  then show ?thesis
    by (elim disjE) (simp_all add: digit_char_def digit_val_def digit_table_def)
qed

lemma is_digit_digit_char: "d < 10 \<Longrightarrow> is_digit (digit_char d)"
  by (simp add: is_digit_def digit_val_digit_char)

lemma not_digit_chars:
  "\<not> is_digit CHR ''.''" "\<not> is_digit CHR ''I''" "\<not> is_digit CHR '' ''"
  "\<not> is_digit CHR ''-''" "\<not> is_digit CHR ''+''"
  by (simp_all add: is_digit_def digit_val_def digit_table_def)

lemma dec_small: "n < 10 \<Longrightarrow> dec n = [digit_char n]"
  by (subst dec.simps) simp

lemma dec_large: "\<not> n < 10 \<Longrightarrow> dec n = dec (n div 10) @ [digit_char (n mod 10)]"
  by (subst dec.simps) simp

lemma dec_digits: "\<forall>c \<in> set (dec n). is_digit c"
proof (induction n rule: dec.induct)
  case (1 n)
  show ?case
  proof (cases "n < 10")
    case True
    then show ?thesis by (simp add: dec_small is_digit_digit_char)
  next
    case False
    with 1 show ?thesis by (simp add: dec_large is_digit_digit_char)
  qed
qed

lemma dec_nonempty: "dec n \<noteq> []"
  by (cases "n < 10") (simp_all add: dec_small dec_large)

lemma digits_val_snoc: "digits_val (s @ [c]) = 10 * digits_val s + the (digit_val c)"
  by (simp add: digits_val_def)

lemma digits_val_single: "digits_val [c] = the (digit_val c)"
  by (simp add: digits_val_def)

lemma digits_val_digit_char: "d < 10 \<Longrightarrow> digits_val [digit_char d] = d"
  by (simp add: digits_val_single digit_val_digit_char)

lemma digits_val_dec: "digits_val (dec n) = n"
proof (induction n rule: dec.induct)
  case (1 n)
  show ?case
  proof (cases "n < 10")
    case True
    then show ?thesis
      by (simp add: dec_small digits_val_digit_char)
  next
    case False
    then have "digits_val (dec (n div 10)) = n div 10"
      by (rule "1.IH")
    moreover have "n mod 10 < 10" by simp
    ultimately have "digits_val (dec n) = 10 * (n div 10) + n mod 10"
      using False by (simp add: dec_large digits_val_snoc digit_val_digit_char)
    then show ?thesis by simp
  qed
qed

lemma parse_unsigned_decimal:
  assumes "k < 10"
  shows "parse_unsigned (dec q @ CHR ''.'' # [digit_char k]) = Fin (of_nat q + of_nat k / 10)"
proof -
  obtain c cs where ds: "dec q = c # cs"
    using dec_nonempty [of q] by (cases "dec q") auto
  have all: "\<forall>x \<in> set (dec q). is_digit x" by (rule dec_digits)
  with ds have c: "is_digit c" by simp
  then have "c \<noteq> CHR ''I''" using not_digit_chars(2) by auto
  then have inf: "\<not> is_prefix ''Infinity'' (dec q @ CHR ''.'' # [digit_char k])"
    by (simp add: is_prefix_def ds)
  have ip: "takeWhile is_digit (dec q @ CHR ''.'' # [digit_char k]) = dec q"
    using all by (simp add: takeWhile_tail not_digit_chars(1))
  have rest: "dropWhile is_digit (dec q @ CHR ''.'' # [digit_char k]) = CHR ''.'' # [digit_char k]"
    using all by (simp add: dropWhile_append3 not_digit_chars(1))
  have fp: "takeWhile is_digit [digit_char k] = [digit_char k]"
    using assms by (simp add: is_digit_digit_char)
  have v: "digits_val [digit_char k] = k"
    using assms by (rule digits_val_digit_char)
  show ?thesis
    unfolding parse_unsigned_def Let_def
    using assms by (simp add: inf ip rest v digits_val_dec dec_nonempty is_digit_digit_char)
qed

lemma parseFloat_decimal:
  assumes "k < 10"
  shows "parseFloat (dec q @ CHR ''.'' # [digit_char k]) = Fin (of_nat q + of_nat k / 10)"
proof -
  obtain c cs where ds: "dec q = c # cs"
    using dec_nonempty [of q] by (cases "dec q") auto
  have "\<forall>x \<in> set (dec q). is_digit x" by (rule dec_digits)
  with ds have c: "is_digit c" by simp
  then have ne: "c \<noteq> CHR '' ''" "c \<noteq> CHR ''-''" "c \<noteq> CHR ''+''"
    using not_digit_chars by auto
  have "parseFloat (dec q @ CHR ''.'' # [digit_char k]) =
          parse_unsigned (dec q @ CHR ''.'' # [digit_char k])"
    using ne by (simp add: parseFloat_def ds)
  then show ?thesis using assms by (simp add: parse_unsigned_decimal)
qed

lemma toFixed_1_nonneg:
  assumes "0 \<le> x"
  shows "toFixed 1 (Fin x) =
           dec (nat \<lfloor>x * 10 + 1 / 2\<rfloor> div 10) @ CHR ''.'' # [digit_char (nat \<lfloor>x * 10 + 1 / 2\<rfloor> mod 10)]"
proof -
  have "nat \<lfloor>x * 10 + 1 / 2\<rfloor> mod 10 < 10" by simp
  then have "dec (nat \<lfloor>x * 10 + 1 / 2\<rfloor> mod 10) = [digit_char (nat \<lfloor>x * 10 + 1 / 2\<rfloor> mod 10)]"
    by (rule dec_small)
  then show ?thesis using assms by (simp add: Let_def pad_left_def)
qed

lemma parseFloat_toFixed_1:
  assumes "0 \<le> x"
  shows "parseFloat (toFixed 1 (Fin x)) = Fin (tenths x)"
proof -
  let ?n = "nat \<lfloor>x * 10 + 1 / 2\<rfloor>"
  have nonneg: "0 \<le> \<lfloor>x * 10 + 1 / 2\<rfloor>" using assms by simp
  have "parseFloat (toFixed 1 (Fin x)) = Fin (of_nat (?n div 10) + of_nat (?n mod 10) / 10)"
    using assms by (simp only: toFixed_1_nonneg) (simp add: parseFloat_decimal)
  also have "(of_nat (?n div 10) + of_nat (?n mod 10) / 10 :: rat) = of_nat ?n / 10"
  proof -
    have "(of_nat ?n :: rat) = of_nat (10 * (?n div 10) + ?n mod 10)" by simp
    also have "\<dots> = 10 * of_nat (?n div 10) + of_nat (?n mod 10)"
      by (simp only: of_nat_add of_nat_mult of_nat_numeral)
    finally show ?thesis by simp
  qed
  also have "(of_nat ?n :: rat) = of_int \<lfloor>x * 10 + 1 / 2\<rfloor>"
    using nonneg by simp
  finally show ?thesis by (simp add: tenths_def)
qed

section \<open>The statistics of the reference matrix\<close>

text \<open>
  Claim C1. On the confusion matrix \<open>[[4250, 350], [420, 4980]]\<close> (the one of the mock
  report) the component displays accuracy \<open>92.3\<close>, precision \<open>93.4\<close>, recall \<open>92.2\<close> and
  F1 \<open>92.8\<close>; the formulas \<open>(tn+tp)/total*100\<close>, \<open>tp/(tp+fp)*100\<close>, \<open>tp/(tp+fn)*100\<close> and
  \<open>2*precision*recall/(precision+recall)\<close>, rounded to one decimal place, give the same
  four values.
\<close>

theorem confusion_stats_reference_matrix:
  "ConfusionMatrix ((4250, 350), (420, 4980)) =
     \<lparr>accuracy = ''92.3'', precision = ''93.4'', recall = ''92.2'', f1Score = ''92.8''\<rparr>
   \<and> toFixed 1 (Fin (exact_accuracy ((4250, 350), (420, 4980)))) = ''92.3''
   \<and> toFixed 1 (Fin (exact_precision ((4250, 350), (420, 4980)))) = ''93.4''
   \<and> toFixed 1 (Fin (exact_recall ((4250, 350), (420, 4980)))) = ''92.2''
   \<and> toFixed 1 (Fin (unrounded_f1 ((4250, 350), (420, 4980)))) = ''92.8''
   \<and> confusion_matrix mockGetMetrics = ((4250, 350), (420, 4980))"
proof -
  have a: "ConfusionMatrix ((4250, 350), (420, 4980)) =
     \<lparr>accuracy = ''92.3'', precision = ''93.4'', recall = ''92.2'', f1Score = ''92.8''\<rparr>"
    by (simp add: ConfusionMatrix_def num_def print_eval parse_eval)
  have b: "toFixed 1 (Fin (exact_accuracy ((4250, 350), (420, 4980)))) = ''92.3''"
    by (simp add: exact_accuracy_def print_eval)
  have c: "toFixed 1 (Fin (exact_precision ((4250, 350), (420, 4980)))) = ''93.4''"
    by (simp add: exact_precision_def print_eval)
  have d: "toFixed 1 (Fin (exact_recall ((4250, 350), (420, 4980)))) = ''92.2''"
    by (simp add: exact_recall_def print_eval)
  have e: "toFixed 1 (Fin (unrounded_f1 ((4250, 350), (420, 4980)))) = ''92.8''"
    by (simp add: unrounded_f1_def exact_precision_def exact_recall_def print_eval)
  have f: "confusion_matrix mockGetMetrics = ((4250, 350), (420, 4980))"
    by (simp add: mockGetMetrics_def)
  from a b c d e f show ?thesis by blast
qed

section \<open>Rounding to binary64\<close>

lemma bitlength_zero: "bitlength 0 = 0"
  by (subst bitlength.simps) simp

lemma bitlength_pos: "0 < n \<Longrightarrow> bitlength n = Suc (bitlength (n div 2))"
  by (subst bitlength.simps) simp

lemma bitlength_upper: "n < 2 ^ bitlength n"
proof (induction n rule: bitlength.induct)
  case (1 n)
  show ?case
  proof (cases "n = 0")
    case True
    then show ?thesis by (simp add: bitlength_zero)
  next
    case False
    with 1 have "n div 2 < 2 ^ bitlength (n div 2)" by simp
    then have "n < 2 * 2 ^ bitlength (n div 2)" by linarith
    with False show ?thesis by (simp add: bitlength_pos)
  qed
qed

lemma bitlength_lower: "0 < n \<Longrightarrow> 2 ^ (bitlength n - 1) \<le> n"
proof (induction n rule: bitlength.induct)
  case (1 n)
  then have pos: "0 < n" by simp
  show ?case
  proof (cases "n div 2 = 0")
    case True
    with pos show ?thesis by (simp add: bitlength_pos bitlength_zero)
  next
    case False
    then have h: "0 < n div 2" by simp
    with 1 pos have ih: "2 ^ (bitlength (n div 2) - 1) \<le> n div 2" by simp
    from h have b: "bitlength (n div 2) = Suc (bitlength (n div 2) - 1)"
      by (simp add: bitlength_pos)
    have "2 ^ bitlength (n div 2) = 2 * 2 ^ (bitlength (n div 2) - 1)"
      by (subst b) simp
    also have "\<dots> \<le> 2 * (n div 2)" using ih by simp
    also have "\<dots> \<le> n" by simp
    finally show ?thesis using pos by (simp add: bitlength_pos)
  qed
qed

lemma ilog2_lower:
  assumes "0 < a"
  shows "2 powi (ilog2 a) \<le> a"
proof (cases "1 \<le> a")
  case True
  define n where "n = nat \<lfloor>a\<rfloor>"
  from True have fl1: "1 \<le> \<lfloor>a\<rfloor>" by simp
  then have n: "0 < n" by (simp add: n_def)
  then have bl: "0 < bitlength n" by (simp add: bitlength_pos)
  have "ilog2 a = int (bitlength n) - 1" using True by (simp add: ilog2_def n_def)
  also have "\<dots> = int (bitlength n - 1)" using bl by simp
  finally have "2 powi (ilog2 a) = (2::rat) ^ (bitlength n - 1)" by simp
  also have "\<dots> = of_nat (2 ^ (bitlength n - 1))" by simp
  also have "\<dots> \<le> of_nat n" using bitlength_lower [OF n] by (simp only: of_nat_le_iff)
  also have "\<dots> = of_int \<lfloor>a\<rfloor>" using fl1 by (simp add: n_def)
  also have "\<dots> \<le> a" by simp
  finally show ?thesis .
next
  case False
  define M where "M = \<lceil>1 / a\<rceil>"
  define j where "j = bitlength (nat (M - 1))"
  have "nat (M - 1) < 2 ^ j" unfolding j_def by (rule bitlength_upper)
  then have "int (nat (M - 1)) < 2 ^ j" by (metis of_nat_less_iff of_nat_numeral of_nat_power)
  then have "M - 1 < 2 ^ j" by linarith
  then have "M \<le> 2 ^ j" by simp
  then have "(of_int M :: rat) \<le> 2 ^ j" by (metis of_int_le_iff of_int_numeral of_int_power)
  moreover have "1 / a \<le> of_int M" unfolding M_def by simp
  ultimately have "1 / a \<le> 2 ^ j" by linarith
  with assms have "1 \<le> a * 2 ^ j" by (simp add: field_simps)
  then have "1 / 2 ^ j \<le> a" by (simp add: field_simps)
  moreover have "ilog2 a = - int j" using False by (simp add: ilog2_def j_def M_def)
  ultimately show ?thesis by (simp add: power_int_minus_divide)
qed

lemma round_even_error: "\<bar>of_int (round_even y) - y\<bar> \<le> 1 / 2"
proof -
  have "of_int \<lfloor>y\<rfloor> \<le> y" "y < of_int \<lfloor>y\<rfloor> + 1" by linarith+
  then show ?thesis
    by (auto simp: round_even_def Let_def)
qed

lemma round_even_nonneg: "0 \<le> y \<Longrightarrow> 0 \<le> round_even y"
  by (auto simp: round_even_def Let_def)

lemma round_even_of_int: "round_even (of_int m) = m"
  by (simp add: round_even_def)

lemma round64_near:
  assumes "0 \<le> x" and "x < 2 ^ 15"
  shows "round64 x = Fin (num_val (round64 x))"
    and "0 \<le> num_val (round64 x)"
    and "\<bar>num_val (round64 x) - x\<bar> \<le> 1 / 2 ^ 39"
proof -
  have "round64 x = Fin (num_val (round64 x)) \<and> 0 \<le> num_val (round64 x)
        \<and> \<bar>num_val (round64 x) - x\<bar> \<le> 1 / 2 ^ 39"
  proof (cases "x = 0")
    case True
    then show ?thesis by (simp add: round64_def num_val_def)
  next
    case False
    with assms have pos: "0 < x" by simp
    define e where "e = max (ilog2 x) (- 1022)"
    define q where "q = (2::rat) powi (e - 52)"
    define n where "n = round_even (x / q)"
    define v where "v = of_int n * q"
    have qpos: "0 < q" by (simp add: q_def)
    have "e < 15"
    proof (rule ccontr)
      assume "\<not> e < 15"
      then have "15 \<le> ilog2 x" by (simp add: e_def max_def split: if_splits)
      then have "(2::rat) powi 15 \<le> 2 powi (ilog2 x)"
        by (intro power_int_increasing) simp_all
      also have "\<dots> \<le> x" by (rule ilog2_lower [OF pos])
      finally show False using assms(2) by simp
    qed
    then have "e - 52 \<le> - 38" by simp
    then have "q \<le> 2 powi (- 38)" unfolding q_def
      by (intro power_int_increasing) simp_all
    then have qle: "q \<le> 1 / 2 ^ 38" by (simp add: power_int_minus_divide)
    have "\<bar>of_int n - x / q\<bar> \<le> 1 / 2" unfolding n_def by (rule round_even_error)
    then have "\<bar>of_int n - x / q\<bar> * q \<le> 1 / 2 * q"
      using qpos by (intro mult_right_mono) simp_all
    moreover have "\<bar>of_int n - x / q\<bar> * q = \<bar>v - x\<bar>"
    proof -
      have "\<bar>of_int n - x / q\<bar> * q = \<bar>(of_int n - x / q) * q\<bar>"
        using qpos by (simp add: abs_mult)
      also have "(of_int n - x / q) * q = v - x"
        using qpos by (simp add: v_def field_simps)
      finally show ?thesis .
    qed
    ultimately have err: "\<bar>v - x\<bar> \<le> 1 / 2 ^ 39" using qle by simp
    have "0 \<le> x / q" using pos qpos by simp
    then have "0 \<le> n" unfolding n_def by (rule round_even_nonneg)
    then have vnn: "0 \<le> v" using qpos by (simp add: v_def)
    have "\<bar>v - x\<bar> \<le> 1" using err by (rule order_trans) simp
    then have "v \<le> x + 1" by linarith
    then have "v < 2 ^ 15 + 1" using assms(2) by simp
    also have "\<dots> \<le> (2::rat) ^ 1024" by simp
    finally have small: "\<not> 2 ^ 1024 \<le> v" by simp
    have "round64 x = Fin v"
      using False pos small
      by (simp add: round64_def Let_def e_def [symmetric] q_def [symmetric] n_def [symmetric]
          v_def [symmetric])
    with vnn err show ?thesis by (simp add: num_val_def)
  qed
  then show "round64 x = Fin (num_val (round64 x))"
    and "0 \<le> num_val (round64 x)"
    and "\<bar>num_val (round64 x) - x\<bar> \<le> 1 / 2 ^ 39"
    by simp_all
qed

lemma round64_of_nat:
  assumes "n < 2 ^ 53"
  shows "round64 (of_nat n) = Fin (of_nat n)"
proof (cases "n = 0")
  case True
  then show ?thesis by (simp add: round64_def)
next
  case False
  then have pos: "0 < n" by simp
  define b where "b = bitlength n"
  have bl: "0 < b" using pos by (simp add: b_def bitlength_pos)
  have il: "ilog2 (of_nat n) = int b - 1"
    using pos by (simp add: ilog2_def b_def)
  have "2 ^ (b - 1) \<le> n" unfolding b_def by (rule bitlength_lower [OF pos])
  with assms have "(2::nat) ^ (b - 1) < 2 ^ 53" by linarith
  then have "b - 1 < 53" by (rule power_less_imp_less_exp [rotated]) simp
  then have b53: "b \<le> 53" by simp
  define k where "k = 53 - b"
  have e: "max (ilog2 (of_nat n)) (- 1022) = int b - 1" using il by simp
  have q: "(2::rat) powi (int b - 1 - 52) = 1 / 2 ^ k"
  proof -
    have "int b - 1 - 52 = - int k" using b53 by (simp add: k_def)
    then show ?thesis by (simp add: power_int_minus_divide)
  qed
  have quot: "(of_nat n :: rat) / (1 / 2 ^ k) = of_int (int n * 2 ^ k)" by simp
  have r: "round_even ((of_nat n :: rat) / (1 / 2 ^ k)) = int n * 2 ^ k"
    by (simp only: quot round_even_of_int)
  have v: "(of_int (int n * 2 ^ k) :: rat) * (1 / 2 ^ k) = of_nat n" by simp
  have "(of_nat n :: rat) < of_nat (2 ^ 53)" using assms by (simp only: of_nat_less_iff)
  also have "\<dots> \<le> 2 ^ 1024" by simp
  finally have small: "\<not> (2::rat) ^ 1024 \<le> of_nat n" by simp
  have nz: "(of_nat n :: rat) \<noteq> 0" using pos by simp
  have sg: "sgn (of_nat n :: rat) = 1" using pos by simp
  have ab: "\<bar>of_nat n :: rat\<bar> = of_nat n" by simp
  show ?thesis
    unfolding round64_def Let_def
    by (simp only: nz if_False ab e q r v small sg mult_1)
qed

lemma round64_close:
  assumes "0 \<le> x" and "x < 2 ^ 15"
  shows "round64 x = Fin (num_val (round64 x))"
    and "0 \<le> num_val (round64 x)"
    and "\<bar>num_val (round64 x) - x\<bar> \<le> 1 / 1000000000"
proof -
  note d = round64_near [OF assms]
  show "round64 x = Fin (num_val (round64 x))" by (rule d(1))
  show "0 \<le> num_val (round64 x)" by (rule d(2))
  have "(1::rat) / 2 ^ 39 \<le> 1 / 1000000000" by simp
  with d(3) show "\<bar>num_val (round64 x) - x\<bar> \<le> 1 / 1000000000" by (rule order_trans)
qed

text \<open>
  Away from the subnormal range and below the overflow threshold the rounding error is
  relative: at most one part in \<open>2^53\<close>.
\<close>

lemma round64_rel:
  assumes "1 / 2 \<le> x" and "x \<le> 2 ^ 1023 * (1 + 1 / 1125899906842624)"
  shows "round64 x = Fin (num_val (round64 x))"
    and "9007199254740991 * x \<le> 9007199254740992 * num_val (round64 x)"
    and "9007199254740992 * num_val (round64 x) \<le> 9007199254740993 * x"
proof -
  from assms(1) have pos: "0 < x" by simp
  define e where "e = max (ilog2 x) (- 1022)"
  define q where "q = (2::rat) powi (e - 52)"
  define n where "n = round_even (x / q)"
  define v where "v = of_int n * q"
  have qpos: "0 < q" by (simp add: q_def)
  have qle: "q \<le> x / 2 ^ 52"
  proof (cases "- 1022 \<le> ilog2 x")
    case True
    then have "e = ilog2 x" by (simp add: e_def)
    then have "q = 2 powi (ilog2 x + (- 52))" by (simp add: q_def)
    also have "\<dots> = 2 powi (ilog2 x) * 2 powi (- 52)"
      by (rule power_int_add) simp
    also have "\<dots> \<le> x * 2 powi (- 52)"
      using ilog2_lower [OF pos] by (intro mult_right_mono) simp_all
    finally show ?thesis by (simp add: power_int_minus_divide)
  next
    case False
    then have "e = - 1022" by (simp add: e_def)
    then have "q = 2 powi (- 1074)" by (simp add: q_def)
    also have "\<dots> \<le> (1 / 2) / 2 ^ 52" by (simp add: power_int_minus_divide)
    also have "\<dots> \<le> x / 2 ^ 52" using assms(1) by (intro divide_right_mono) simp_all
    finally show ?thesis .
  qed
  have "\<bar>of_int n - x / q\<bar> \<le> 1 / 2" unfolding n_def by (rule round_even_error)
  then have "\<bar>of_int n - x / q\<bar> * q \<le> 1 / 2 * q"
    using qpos by (intro mult_right_mono) simp_all
  moreover have "\<bar>of_int n - x / q\<bar> * q = \<bar>v - x\<bar>"
  proof -
    have "\<bar>of_int n - x / q\<bar> * q = \<bar>(of_int n - x / q) * q\<bar>"
      using qpos by (simp add: abs_mult)
    also have "(of_int n - x / q) * q = v - x"
      using qpos by (simp add: v_def field_simps)
    finally show ?thesis .
  qed
  ultimately have "\<bar>v - x\<bar> \<le> 1 / 2 * q" by simp
  also have "\<dots> \<le> 1 / 2 * (x / 2 ^ 52)" using qle by (intro mult_left_mono) simp_all
  also have "\<dots> = x / 9007199254740992" by simp
  finally have err: "\<bar>v - x\<bar> \<le> x / 9007199254740992" .
  have "v \<le> x + x / 9007199254740992" using err by linarith
  also have "\<dots> = x * (1 + 1 / 9007199254740992)" by (simp add: field_simps)
  also have "\<dots> \<le> (2 ^ 1023 * (1 + 1 / 1125899906842624)) * (1 + 1 / 9007199254740992)"
    using assms(2) by (intro mult_right_mono) simp_all
  also have "\<dots> < 2 ^ 1024" by simp
  finally have small: "\<not> 2 ^ 1024 \<le> v" by simp
  have "round64 x = Fin v"
    using pos small
    by (simp add: round64_def Let_def e_def [symmetric] q_def [symmetric] n_def [symmetric]
        v_def [symmetric])
  then have nv: "num_val (round64 x) = v" by (simp add: num_val_def)
  show "round64 x = Fin (num_val (round64 x))" using \<open>round64 x = Fin v\<close> nv by simp
  show "9007199254740991 * x \<le> 9007199254740992 * num_val (round64 x)"
    unfolding nv using err by linarith
  show "9007199254740992 * num_val (round64 x) \<le> 9007199254740993 * x"
    unfolding nv using err by linarith
qed

lemma round64_rel0:
  assumes "x = 0 \<or> 1 / 2 \<le> x" and "x \<le> 2 ^ 1023 * (1 + 1 / 1125899906842624)"
  shows "round64 x = Fin (num_val (round64 x))"
    and "9007199254740991 * x \<le> 9007199254740992 * num_val (round64 x)"
    and "9007199254740992 * num_val (round64 x) \<le> 9007199254740993 * x"
proof -
  have "round64 x = Fin (num_val (round64 x))
      \<and> 9007199254740991 * x \<le> 9007199254740992 * num_val (round64 x)
      \<and> 9007199254740992 * num_val (round64 x) \<le> 9007199254740993 * x"
  proof (cases "x = 0")
    case True
    then show ?thesis by (simp add: round64_def num_val_def)
  next
    case False
    with assms(1) have "1 / 2 \<le> x" by simp
    from round64_rel [OF this assms(2)] show ?thesis by blast
  qed
  then show "round64 x = Fin (num_val (round64 x))"
    and "9007199254740991 * x \<le> 9007199254740992 * num_val (round64 x)"
    and "9007199254740992 * num_val (round64 x) \<le> 9007199254740993 * x"
    by blast+
qed

section \<open>The statistics in binary64\<close>

lemma stats64_fields:
  "accuracy (ConfusionMatrix64 m) = toFixed 1 (accuracy64 m)"
  "precision (ConfusionMatrix64 m) = toFixed 1 (precision64 m)"
  "recall (ConfusionMatrix64 m) = toFixed 1 (recall64 m)"
  "f1Score (ConfusionMatrix64 m) =
     f1_64 (parseFloat64 (precision (ConfusionMatrix64 m))) (parseFloat64 (recall (ConfusionMatrix64 m)))"
  by (cases m; simp add: ConfusionMatrix64_def accuracy64_def precision64_def recall64_def f1_64_def
        Let_def split: prod.splits del: toFixed.simps)+

lemma add64_Fin: "add64 (Fin a) (Fin b) = round64 (a + b)"
  by (simp add: add64_def fl_def)

lemma mul64_Fin: "mul64 (Fin a) (Fin b) = round64 (a * b)"
  by (simp add: mul64_def fl_def)

lemma div64_Fin: "b \<noteq> 0 \<Longrightarrow> div64 (Fin a) (Fin b) = round64 (a / b)"
  by (simp add: div64_def fl_def)

lemma of_nat_zero_or_ge_1: "(of_nat n :: rat) = 0 \<or> 1 \<le> (of_nat n :: rat)"
proof (cases "n = 0")
  case True
  then show ?thesis by simp
next
  case False
  then have "1 \<le> n" by simp
  then have "(of_nat 1 :: rat) \<le> of_nat n" by (simp only: of_nat_le_iff)
  then show ?thesis by simp
qed

lemma num64_rel:
  assumes "of_nat n \<le> (B::rat)" and "B = 2 ^ 1023"
  defines "c \<equiv> num_val (num64 n)"
  shows "num64 n = Fin c"
    and "9007199254740991 * of_nat n \<le> 9007199254740992 * c"
    and "9007199254740992 * c \<le> 9007199254740993 * of_nat n"
proof -
  have z: "(of_nat n :: rat) = 0 \<or> 1 / 2 \<le> (of_nat n :: rat)"
    using of_nat_zero_or_ge_1 [of n] by (elim disjE) simp_all
  have "(of_nat n :: rat) \<le> 2 ^ 1023 * (1 + 1 / 1125899906842624)"
    using assms(1) unfolding assms(2) by simp
  note r = round64_rel0 [OF z this]
  show "num64 n = Fin c" unfolding c_def num64_def by (rule r(1))
  show "9007199254740991 * of_nat n \<le> 9007199254740992 * c"
    unfolding c_def num64_def by (rule r(2))
  show "9007199254740992 * c \<le> 9007199254740993 * of_nat n"
    unfolding c_def num64_def by (rule r(3))
qed

lemma add64_rel:
  assumes "x + y = 0 \<or> 1 / 2 \<le> x + y"
    and "1125899906842624 * x + 1125899906842624 * y \<le> 1125899906842625 * B"
    and "B = 2 ^ 1023"
  defines "s \<equiv> num_val (add64 (Fin x) (Fin y))"
  shows "add64 (Fin x) (Fin y) = Fin s"
    and "9007199254740991 * x + 9007199254740991 * y \<le> 9007199254740992 * s"
    and "9007199254740992 * s \<le> 9007199254740993 * x + 9007199254740993 * y"
proof -
  have "x + y \<le> 1125899906842625 * B / 1125899906842624" using assms(2) by linarith
  also have "\<dots> = 2 ^ 1023 * (1 + 1 / 1125899906842624)" unfolding assms(3) by simp
  finally have "x + y \<le> 2 ^ 1023 * (1 + 1 / 1125899906842624)" .
  note r = round64_rel0 [OF assms(1) this, folded add64_Fin, folded s_def]
  show "add64 (Fin x) (Fin y) = Fin s" by (rule r(1))
  show "9007199254740991 * x + 9007199254740991 * y \<le> 9007199254740992 * s"
    using r(2) by (simp only: distrib_left)
  show "9007199254740992 * s \<le> 9007199254740993 * x + 9007199254740993 * y"
    using r(3) by (simp only: distrib_left)
qed

lemma sum_zero_or_half:
  fixes x y X Y :: rat
  assumes "X \<le> 2 * x" and "x \<le> 2 * X" and "Y \<le> 2 * y" and "y \<le> 2 * Y"
    and "X + Y = 0 \<or> 1 \<le> X + Y"
  shows "x + y = 0 \<or> 1 / 2 \<le> x + y"
  using assms(5)
proof
  assume "X + Y = 0"
  with assms(1-4) have "x + y = 0" by linarith
  then show ?thesis ..
next
  assume "1 \<le> X + Y"
  with assms(1,3) have "1 / 2 \<le> x + y" by linarith
  then show ?thesis ..
qed

text \<open>
  The two sums of the accuracy and the two denominators, as computed: each is a finite
  number close to the exact sum of the counts, as long as no sum overflows.
\<close>

lemma sums64:
  fixes tn fp fn tp :: nat
  assumes "tn + fp + fn + tp < 2 ^ 1023"
  defines "s \<equiv> add64 (add64 (add64 (num64 tn) (num64 fp)) (num64 fn)) (num64 tp)"
    and "a \<equiv> add64 (num64 tn) (num64 tp)"
    and "dp \<equiv> add64 (num64 tp) (num64 fp)"
    and "dr \<equiv> add64 (num64 tp) (num64 fn)"
  shows "s = Fin (num_val s)" and "a = Fin (num_val a)" and "num64 tp = Fin (num_val (num64 tp))"
    and "dp = Fin (num_val dp)" and "dr = Fin (num_val dr)"
    and "0 \<le> num_val a" and "0 \<le> num_val (num64 tp)"
    and "0 < tp + fp \<Longrightarrow> 0 < num_val s"
    and "0 < tp + fp \<Longrightarrow> 0 < num_val dp"
    and "0 < tp + fn \<Longrightarrow> 0 < num_val dr"
    and "1000000000 * num_val a \<le> 1000000001 * num_val s"
    and "1000000000 * num_val (num64 tp) \<le> 1000000001 * num_val dp"
    and "1000000000 * num_val (num64 tp) \<le> 1000000001 * num_val dr"
proof -
  define B :: rat where "B = 2 ^ 1023"
  define TN FP FN TP :: rat
    where "TN = of_nat tn" and "FP = of_nat fp" and "FN = of_nat fn" and "TP = of_nat tp"
  have nn: "0 \<le> TN" "0 \<le> FP" "0 \<le> FN" "0 \<le> TP"
    by (simp_all add: TN_def FP_def FN_def TP_def)
  have "(of_nat (tn + fp + fn + tp) :: rat) < of_nat (2 ^ 1023)"
    using assms(1) by (simp only: of_nat_less_iff)
  then have tot: "TN + FP + FN + TP < B"
    by (simp add: TN_def FP_def FN_def TP_def B_def)
  have B0: "0 \<le> B" by (simp add: B_def)
  define c1 c2 c3 c4 where "c1 = num_val (num64 tn)" and "c2 = num_val (num64 fp)"
    and "c3 = num_val (num64 fn)" and "c4 = num_val (num64 tp)"
  have "of_nat tn \<le> B" "of_nat fp \<le> B" "of_nat fn \<le> B" "of_nat tp \<le> B"
    using tot nn by (simp_all add: TN_def FP_def FN_def TP_def)
  note k1 = num64_rel [OF this(1) B_def, folded c1_def TN_def]
    and k2 = num64_rel [OF this(2) B_def, folded c2_def FP_def]
    and k3 = num64_rel [OF this(3) B_def, folded c3_def FN_def]
    and k4 = num64_rel [OF this(4) B_def, folded c4_def TP_def]
  have z: "TN + FP = 0 \<or> 1 \<le> TN + FP" "TN + FP + FN = 0 \<or> 1 \<le> TN + FP + FN"
    "TN + FP + FN + TP = 0 \<or> 1 \<le> TN + FP + FN + TP" "TN + TP = 0 \<or> 1 \<le> TN + TP"
    "TP + FP = 0 \<or> 1 \<le> TP + FP" "TP + FN = 0 \<or> 1 \<le> TP + FN"
    using of_nat_zero_or_ge_1 [of "tn + fp"] of_nat_zero_or_ge_1 [of "tn + fp + fn"]
      of_nat_zero_or_ge_1 [of "tn + fp + fn + tp"] of_nat_zero_or_ge_1 [of "tn + tp"]
      of_nat_zero_or_ge_1 [of "tp + fp"] of_nat_zero_or_ge_1 [of "tp + fn"]
    by (simp_all add: TN_def FP_def FN_def TP_def)
  define s1 where "s1 = num_val (add64 (Fin c1) (Fin c2))"
  have "c1 + c2 = 0 \<or> 1 / 2 \<le> c1 + c2"
    using k1(2,3) k2(2,3) nn by (intro sum_zero_or_half [OF _ _ _ _ z(1)]) linarith+
  moreover have "1125899906842624 * c1 + 1125899906842624 * c2 \<le> 1125899906842625 * B"
    using k1(3) k2(3) tot nn by linarith
  ultimately have r1: "add64 (Fin c1) (Fin c2) = Fin s1"
    "9007199254740991 * c1 + 9007199254740991 * c2 \<le> 9007199254740992 * s1"
    "9007199254740992 * s1 \<le> 9007199254740993 * c1 + 9007199254740993 * c2"
    unfolding s1_def by (rule add64_rel [OF _ _ B_def])+
  define T1 where "T1 = TN + FP"
  have b1: "9007199254740990 * T1 \<le> 9007199254740992 * s1"
    "9007199254740992 * s1 \<le> 9007199254740995 * T1"
    using r1(2,3) k1(2,3) k2(2,3) nn T1_def by linarith+
  have T1: "0 \<le> T1" "T1 + FN = 0 \<or> 1 \<le> T1 + FN" "T1 + FN + TP < B"
    using nn z(2) tot unfolding T1_def by simp_all
  define s2 where "s2 = num_val (add64 (Fin s1) (Fin c3))"
  have "s1 + c3 = 0 \<or> 1 / 2 \<le> s1 + c3"
    using b1 k3(2,3) nn T1(1) by (intro sum_zero_or_half [OF _ _ _ _ T1(2)]) linarith+
  moreover have "1125899906842624 * s1 + 1125899906842624 * c3 \<le> 1125899906842625 * B"
    using b1(2) k3(3) T1 nn by linarith
  ultimately have r2: "add64 (Fin s1) (Fin c3) = Fin s2"
    "9007199254740991 * s1 + 9007199254740991 * c3 \<le> 9007199254740992 * s2"
    "9007199254740992 * s2 \<le> 9007199254740993 * s1 + 9007199254740993 * c3"
    unfolding s2_def by (rule add64_rel [OF _ _ B_def])+
  define T2 where "T2 = T1 + FN"
  have b2: "9007199254740989 * T2 \<le> 9007199254740992 * s2"
    "9007199254740992 * s2 \<le> 9007199254740997 * T2"
    using r2(2,3) b1 k3(2,3) nn T1(1) T2_def by linarith+
  have T2: "0 \<le> T2" "T2 + TP = 0 \<or> 1 \<le> T2 + TP" "T2 + TP < B"
    using nn z(3) tot unfolding T2_def T1_def by simp_all
  define s3 where "s3 = num_val (add64 (Fin s2) (Fin c4))"
  have "s2 + c4 = 0 \<or> 1 / 2 \<le> s2 + c4"
    using b2 k4(2,3) nn T2(1) by (intro sum_zero_or_half [OF _ _ _ _ T2(2)]) linarith+
  moreover have "1125899906842624 * s2 + 1125899906842624 * c4 \<le> 1125899906842625 * B"
    using b2(2) k4(3) T2 nn by linarith
  ultimately have r3: "add64 (Fin s2) (Fin c4) = Fin s3"
    "9007199254740991 * s2 + 9007199254740991 * c4 \<le> 9007199254740992 * s3"
    "9007199254740992 * s3 \<le> 9007199254740993 * s2 + 9007199254740993 * c4"
    unfolding s3_def by (rule add64_rel [OF _ _ B_def])+
  define T3 where "T3 = T2 + TP"
  have b3: "9007199254740988 * T3 \<le> 9007199254740992 * s3"
    using r3(2) b2 k4(2,3) nn T2(1) T3_def by linarith
  have T3: "TN + TP \<le> T3" "TP + FP \<le> T3" "T3 < B"
    using nn tot unfolding T3_def T2_def T1_def by simp_all
  have s: "s = Fin s3" by (simp only: s_def k1(1) k2(1) k3(1) k4(1) r1(1) r2(1) r3(1))
  define s4 where "s4 = num_val (add64 (Fin c1) (Fin c4))"
  have "c1 + c4 = 0 \<or> 1 / 2 \<le> c1 + c4"
    using k1(2,3) k4(2,3) nn by (intro sum_zero_or_half [OF _ _ _ _ z(4)]) linarith+
  moreover have "1125899906842624 * c1 + 1125899906842624 * c4 \<le> 1125899906842625 * B"
    using k1(3) k4(3) T3 nn by linarith
  ultimately have r4: "add64 (Fin c1) (Fin c4) = Fin s4"
    "9007199254740991 * c1 + 9007199254740991 * c4 \<le> 9007199254740992 * s4"
    "9007199254740992 * s4 \<le> 9007199254740993 * c1 + 9007199254740993 * c4"
    unfolding s4_def by (rule add64_rel [OF _ _ B_def])+
  have a: "a = Fin s4" by (simp only: a_def k1(1) k4(1) r4(1))
  define s5 where "s5 = num_val (add64 (Fin c4) (Fin c2))"
  have "c4 + c2 = 0 \<or> 1 / 2 \<le> c4 + c2"
    using k4(2,3) k2(2,3) nn by (intro sum_zero_or_half [OF _ _ _ _ z(5)]) linarith+
  moreover have "1125899906842624 * c4 + 1125899906842624 * c2 \<le> 1125899906842625 * B"
    using k4(3) k2(3) tot nn by linarith
  ultimately have r5: "add64 (Fin c4) (Fin c2) = Fin s5"
    "9007199254740991 * c4 + 9007199254740991 * c2 \<le> 9007199254740992 * s5"
    "9007199254740992 * s5 \<le> 9007199254740993 * c4 + 9007199254740993 * c2"
    unfolding s5_def by (rule add64_rel [OF _ _ B_def])+
  have dp: "dp = Fin s5" by (simp only: dp_def k4(1) k2(1) r5(1))
  define s6 where "s6 = num_val (add64 (Fin c4) (Fin c3))"
  have "c4 + c3 = 0 \<or> 1 / 2 \<le> c4 + c3"
    using k4(2,3) k3(2,3) nn by (intro sum_zero_or_half [OF _ _ _ _ z(6)]) linarith+
  moreover have "1125899906842624 * c4 + 1125899906842624 * c3 \<le> 1125899906842625 * B"
    using k4(3) k3(3) tot nn by linarith
  ultimately have r6: "add64 (Fin c4) (Fin c3) = Fin s6"
    "9007199254740991 * c4 + 9007199254740991 * c3 \<le> 9007199254740992 * s6"
    "9007199254740992 * s6 \<le> 9007199254740993 * c4 + 9007199254740993 * c3"
    unfolding s6_def by (rule add64_rel [OF _ _ B_def])+
  have dr: "dr = Fin s6" by (simp only: dr_def k4(1) k3(1) r6(1))
  have v: "num_val s = s3" "num_val a = s4" "num_val dp = s5" "num_val dr = s6"
    by (simp_all add: s a dp dr num_val_def)
  have c0: "0 \<le> c1" "0 \<le> c2" "0 \<le> c3" "0 \<le> c4"
    using k1(2) k2(2) k3(2) k4(2) nn by linarith+
  show "s = Fin (num_val s)" "a = Fin (num_val a)" "dp = Fin (num_val dp)" "dr = Fin (num_val dr)"
    unfolding v by (rule s a dp dr)+
  show "num64 tp = Fin (num_val (num64 tp))" using k4(1) by (simp only: c4_def)
  show "0 \<le> num_val a" unfolding v using r4(2) c0 by linarith
  show "0 \<le> num_val (num64 tp)" using c0(4) by (simp only: c4_def)
  show "0 < num_val s" if "0 < tp + fp"
  proof -
    from that have "(of_nat (tp + fp) :: rat) \<noteq> 0" by (simp only: of_nat_eq_0_iff)
    then have "TP + FP \<noteq> 0" by (simp add: TP_def FP_def)
    with z(5) have "1 \<le> TP + FP" by blast
    with T3(2) b3 show ?thesis unfolding v by linarith
  qed
  show "0 < num_val dp" if "0 < tp + fp"
  proof -
    from that have "(of_nat (tp + fp) :: rat) \<noteq> 0" by (simp only: of_nat_eq_0_iff)
    then have "TP + FP \<noteq> 0" by (simp add: TP_def FP_def)
    with z(5) have "1 \<le> TP + FP" by blast
    with r5(2) k4(2) k2(2) show ?thesis unfolding v by linarith
  qed
  show "0 < num_val dr" if "0 < tp + fn"
  proof -
    from that have "(of_nat (tp + fn) :: rat) \<noteq> 0" by (simp only: of_nat_eq_0_iff)
    then have "TP + FN \<noteq> 0" by (simp add: TP_def FN_def)
    with z(6) have "1 \<le> TP + FN" by blast
    with r6(2) k4(2) k3(2) show ?thesis unfolding v by linarith
  qed
  show "1000000000 * num_val a \<le> 1000000001 * num_val s"
    unfolding v using r4(3) k1(3) k4(3) b3 T3(1) nn by linarith
  show "1000000000 * num_val (num64 tp) \<le> 1000000001 * num_val dp"
    unfolding v c4_def [symmetric] using r5(2) c0 by linarith
  show "1000000000 * num_val (num64 tp) \<le> 1000000001 * num_val dr"
    unfolding v c4_def [symmetric] using r6(2) c0 by linarith
qed

lemma percent64:
  fixes a b :: rat
  assumes "0 \<le> a" and "0 < b" and "1000000000 * a \<le> 1000000001 * b"
  defines "x \<equiv> mul64 (div64 (Fin a) (Fin b)) (Fin 100)"
  shows "x = Fin (num_val x)" and "0 \<le> num_val x" and "num_val x \<le> 100 + 1 / 1000000"
proof -
  let ?q = "a / b"
  have q0: "0 \<le> ?q" using assms(1,2) by simp
  have "a \<le> 1000000001 / 1000000000 * b" using assms(3) by linarith
  then have q1: "?q \<le> 1000000001 / 1000000000"
    using assms(2) by (simp only: pos_divide_le_eq)
  then have "?q < 2 ^ 15" by (rule le_less_trans) simp
  note d = round64_close [OF q0 this]
  define v1 where "v1 = num_val (round64 ?q)"
  have v1: "0 \<le> v1" "v1 \<le> 1 + 2 / 1000000000"
    using d(2,3) q1 unfolding v1_def by linarith+
  have bnz: "b \<noteq> 0" using assms(2) by simp
  have x: "x = round64 (v1 * 100)"
    unfolding x_def v1_def
    by (simp only: div64_Fin [OF bnz]) (subst d(1), simp only: mul64_Fin)
  have m0: "0 \<le> v1 * 100" using v1(1) by simp
  have "v1 * 100 \<le> 101" using v1(2) by linarith
  then have m1: "v1 * 100 < 2 ^ 15" by (rule le_less_trans) simp
  note d2 = round64_close [OF m0 m1]
  show "x = Fin (num_val x)" unfolding x by (rule d2(1))
  show "0 \<le> num_val x" unfolding x by (rule d2(2))
  show "num_val x \<le> 100 + 1 / 1000000"
    unfolding x using d2(3) v1(2) by linarith
qed

lemma parseFloat64_toFixed_1:
  "0 \<le> x \<Longrightarrow> parseFloat64 (toFixed 1 (Fin x)) = round64 (tenths x)"
  by (simp only: parseFloat64_def parseFloat_toFixed_1) (simp add: fl_def)

lemma tenths_grid:
  assumes "0 \<le> v" and "v \<le> 100 + 1 / 1000000"
  shows "\<exists>k \<le> 1000. tenths v = of_nat k / 10"
proof -
  define k where "k = nat \<lfloor>v * 10 + 1 / 2\<rfloor>"
  have nn: "0 \<le> \<lfloor>v * 10 + 1 / 2\<rfloor>" using assms(1) by simp
  have "v * 10 + 1 / 2 < 1001" using assms(2) by simp
  then have "\<lfloor>v * 10 + 1 / 2\<rfloor> < 1001" by (simp add: floor_less_iff)
  with nn have "k \<le> 1000" unfolding k_def by linarith
  moreover have "tenths v = of_nat k / 10"
    using nn by (simp add: tenths_def k_def)
  ultimately show ?thesis by blast
qed

lemma grid64:
  assumes "k \<le> 1000"
  shows "round64 (of_nat k / 10) = Fin (grid64 k)"
    and "0 \<le> grid64 k"
    and "\<bar>grid64 k - of_nat k / 10\<bar> \<le> 1 / 1000000000"
proof -
  have a: "(0::rat) \<le> of_nat k / 10" by simp
  have "(of_nat k :: rat) \<le> of_nat 1000" using assms by (simp only: of_nat_le_iff)
  then have b: "(of_nat k :: rat) / 10 < 2 ^ 15" by simp
  note d = round64_close [OF a b]
  show "round64 (of_nat k / 10) = Fin (grid64 k)" unfolding grid64_def by (rule d(1))
  show "0 \<le> grid64 k" unfolding grid64_def by (rule d(2))
  show "\<bar>grid64 k - of_nat k / 10\<bar> \<le> 1 / 1000000000" unfolding grid64_def by (rule d(3))
qed

lemma grid64_zero: "grid64 0 = 0"
  by (simp add: grid64_def round64_def num_val_def)

lemma grid64_top: "grid64 1000 = 100"
proof -
  have "round64 (of_nat 100) = Fin (of_nat 100)" by (rule round64_of_nat) simp
  then show ?thesis by (simp add: grid64_def num_val_def)
qed

lemma grid64_strict_mono:
  assumes "j < k" and "k \<le> 1000"
  shows "grid64 j < grid64 k"
proof -
  have j: "\<bar>grid64 j - of_nat j / 10\<bar> \<le> 1 / 1000000000" using assms by (intro grid64) simp
  have k: "\<bar>grid64 k - of_nat k / 10\<bar> \<le> 1 / 1000000000" using assms by (intro grid64) simp
  have "Suc j \<le> k" using assms(1) by simp
  then have "(of_nat (Suc j) :: rat) \<le> of_nat k" by (simp only: of_nat_le_iff)
  then have "(of_nat j :: rat) + 1 \<le> of_nat k" by simp
  then have "(of_nat j :: rat) / 10 + 1 / 10 \<le> of_nat k / 10" by simp
  with j k show ?thesis by linarith
qed

lemma grid64_mono: "j \<le> k \<Longrightarrow> k \<le> 1000 \<Longrightarrow> grid64 j \<le> grid64 k"
  using grid64_strict_mono [of j k] by (cases "j = k") auto

lemma grid64_le_100: "k \<le> 1000 \<Longrightarrow> grid64 k \<le> 100"
  using grid64_mono [of k 1000] by (simp add: grid64_top)

lemma grid64_eq_0_iff: "k \<le> 1000 \<Longrightarrow> grid64 k = 0 \<longleftrightarrow> k = 0"
  using grid64_strict_mono [of 0 k] by (cases "k = 0") (auto simp: grid64_zero)

lemma f1_quotient_bounds:
  fixes a b wp wr t1 t2 vs :: rat
  assumes a: "0 \<le> a" "a \<le> 100" and b: "0 \<le> b" "b \<le> 100"
    and ab: "1 / 10 \<le> a + b"
    and ga: "a = 0 \<or> 1 / 10 \<le> a" and gb: "b = 0 \<or> 1 / 10 \<le> b"
    and wp: "\<bar>wp - a\<bar> \<le> 1 / 1000000000" "0 \<le> wp"
    and wr: "\<bar>wr - b\<bar> \<le> 1 / 1000000000" "0 \<le> wr"
    and t1: "\<bar>t1 - 2 * wp\<bar> \<le> 1 / 1000000000" "0 \<le> t1"
    and t2: "\<bar>t2 - t1 * wr\<bar> \<le> 1 / 1000000000" "0 \<le> t2"
    and vs: "\<bar>vs - (wp + wr)\<bar> \<le> 1 / 1000000000"
  shows "0 < vs"
    and "(min a b - 1 / 25) * vs \<le> t2"
    and "t2 \<le> (max a b + 1 / 25) * vs"
proof -
  define P where "P = a * b"
  define H where "H = max a b"
  define L where "L = min a b"
  define S where "S = H * (a + b)"
  define T where "T = L * (a + b)"
  show vpos: "0 < vs" using ab wp(1) wr(1) vs by linarith
  have vlo: "a + b - 3 / 1000000000 \<le> vs" using wp(1) wr(1) vs by linarith
  have vhi: "vs \<le> a + b + 3 / 1000000000" using wp(1) wr(1) vs by linarith
  have H: "a \<le> H" "b \<le> H" "0 \<le> H" "H \<le> 100"
    using a b by (simp_all add: H_def)
  have L: "L \<le> a" "L \<le> b" "0 \<le> L"
    using a b by (simp_all add: L_def)
  have HP: "2 * P \<le> S"
  proof -
    have "a * b \<le> H * b" using H(1) b(1) by (rule mult_right_mono)
    moreover have "a * b \<le> a * H" using H(2) a(1) by (rule mult_left_mono)
    ultimately show ?thesis by (simp add: P_def S_def algebra_simps)
  qed
  have LP: "T \<le> 2 * P"
  proof -
    have "L * b \<le> a * b" using L(1) b(1) by (rule mult_right_mono)
    moreover have "a * L \<le> a * b" using L(2) a(1) by (rule mult_left_mono)
    ultimately show ?thesis by (simp add: P_def T_def algebra_simps)
  qed
  show "t2 \<le> (max a b + 1 / 25) * vs"
  proof -
    have "t1 \<le> 2 * a + 3 / 1000000000" using wp(1) t1(1) by linarith
    moreover have "wr \<le> b + 1 / 1000000000" using wr(1) by linarith
    moreover have "0 \<le> 2 * a + 3 / 1000000000" using a(1) by simp
    ultimately have "t1 * wr \<le> (2 * a + 3 / 1000000000) * (b + 1 / 1000000000)"
      using wr(2) by (intro mult_mono) simp_all
    also have "\<dots> = 2 * P + 2 * a / 1000000000 + 3 * b / 1000000000 + 3 / 1000000000000000000"
      by (simp add: P_def field_simps)
    finally have up: "t2 \<le> 2 * P + 2 * a / 1000000000 + 3 * b / 1000000000
                        + 3 / 1000000000000000000 + 1 / 1000000000"
      using t2(1) by linarith
    have "(H + 1 / 25) * (a + b - 3 / 1000000000) \<le> (H + 1 / 25) * vs"
      using vlo H(3) by (intro mult_left_mono) simp_all
    moreover have "(H + 1 / 25) * (a + b - 3 / 1000000000) =
        S + a / 25 + b / 25 - 3 * H / 1000000000 - 3 / 25000000000"
      by (simp add: S_def field_simps)
    ultimately have "S + a / 25 + b / 25 - 3 * H / 1000000000 - 3 / 25000000000
        \<le> (H + 1 / 25) * vs" by (simp only:)
    moreover define R where "R = (H + 1 / 25) * vs"
    ultimately have "S + a / 25 + b / 25 - 3 * H / 1000000000 - 3 / 25000000000 \<le> R"
      by (simp only:)
    with up HP a b ab H(4) have "t2 \<le> R" by linarith
    then show ?thesis by (simp only: R_def H_def)
  qed
  show "(min a b - 1 / 25) * vs \<le> t2"
  proof (cases "a = 0 \<or> b = 0")
    case True
    then have "min a b = 0" using a(1) b(1) by (auto simp: min_def)
    then have "(min a b - 1 / 25) * vs = - (vs / 25)" by simp
    with vpos t2(2) show ?thesis by linarith
  next
    case False
    with ga gb have a1: "1 / 10 \<le> a" and b1: "1 / 10 \<le> b" by auto
    have "2 * a - 3 / 1000000000 \<le> t1" using wp(1) t1(1) by linarith
    moreover have "b - 1 / 1000000000 \<le> wr" using wr(1) by linarith
    moreover have "0 \<le> b - 1 / 1000000000" using b1 by linarith
    ultimately have "(2 * a - 3 / 1000000000) * (b - 1 / 1000000000) \<le> t1 * wr"
      using t1(2) by (intro mult_mono) simp_all
    moreover have "(2 * a - 3 / 1000000000) * (b - 1 / 1000000000) =
        2 * P - 2 * a / 1000000000 - 3 * b / 1000000000 + 3 / 1000000000000000000"
      by (simp add: P_def field_simps)
    ultimately have "2 * P - 2 * a / 1000000000 - 3 * b / 1000000000
                          + 3 / 1000000000000000000 \<le> t1 * wr" by (simp only:)
    then have lo: "2 * P - 2 * a / 1000000000 - 3 * b / 1000000000
                          + 3 / 1000000000000000000 - 1 / 1000000000 \<le> t2"
      using t2(1) by linarith
    have L1: "1 / 10 \<le> L" using a1 b1 by (simp add: L_def)
    then have "0 \<le> L - 1 / 25" by linarith
    then have "(L - 1 / 25) * vs \<le> (L - 1 / 25) * (a + b + 3 / 1000000000)"
      using vhi by (intro mult_left_mono)
    moreover have "(L - 1 / 25) * (a + b + 3 / 1000000000) =
        T - a / 25 - b / 25 + 3 * L / 1000000000 - 3 / 25000000000"
      by (simp add: T_def field_simps)
    ultimately have "(L - 1 / 25) * vs \<le>
        T - a / 25 - b / 25 + 3 * L / 1000000000 - 3 / 25000000000" by (simp only:)
    moreover define R where "R = (L - 1 / 25) * vs"
    ultimately have "R \<le> T - a / 25 - b / 25 + 3 * L / 1000000000 - 3 / 25000000000"
      by (simp only:)
    with lo LP a b a1 b1 L(1) have "R \<le> t2" by linarith
    then show ?thesis by (simp only: R_def L_def)
  qed
qed

lemma round_tenths_between:
  fixes h :: rat and lo hi :: nat
  assumes "of_nat lo / 10 - 1 / 20 < h" and "h < of_nat hi / 10 + 1 / 20"
  shows "\<exists>n. lo \<le> n \<and> n \<le> hi \<and> tenths h = of_nat n / 10"
proof -
  define z where "z = \<lfloor>h * 10 + 1 / 2\<rfloor>"
  have "(of_int (int lo) :: rat) \<le> h * 10 + 1 / 2" using assms(1) by simp
  then have lo: "int lo \<le> z" unfolding z_def by (simp only: le_floor_iff)
  have "h * 10 + 1 / 2 < of_int (int hi + 1)" using assms(2) by simp
  then have "z < int hi + 1" unfolding z_def by (simp only: floor_less_iff)
  then have hi: "z \<le> int hi" by simp
  from lo have "0 \<le> z" by linarith
  then have "tenths h = of_nat (nat z) / 10" by (simp add: tenths_def z_def)
  moreover have "lo \<le> nat z" using lo by linarith
  moreover have "nat z \<le> hi" using hi by linarith
  ultimately show ?thesis by blast
qed

lemma f1_64_grid:
  assumes k: "k \<le> 1000" and l: "l \<le> 1000" and nz: "\<not> (k = 0 \<and> l = 0)"
  shows "\<exists>n. min k l \<le> n \<and> n \<le> max k l
           \<and> parseFloat64 (f1_64 (Fin (grid64 k)) (Fin (grid64 l))) = Fin (grid64 n)"
proof -
  define a :: rat where "a = of_nat k / 10"
  define b :: rat where "b = of_nat l / 10"
  define wp where "wp = grid64 k"
  define wr where "wr = grid64 l"
  have a: "0 \<le> a" "a \<le> 100"
  proof -
    show "0 \<le> a" by (simp add: a_def)
    have "(of_nat k :: rat) \<le> of_nat 1000" using k by (simp only: of_nat_le_iff)
    then show "a \<le> 100" by (simp add: a_def)
  qed
  have b: "0 \<le> b" "b \<le> 100"
  proof -
    show "0 \<le> b" by (simp add: b_def)
    have "(of_nat l :: rat) \<le> of_nat 1000" using l by (simp only: of_nat_le_iff)
    then show "b \<le> 100" by (simp add: b_def)
  qed
  have ga: "a = 0 \<or> 1 / 10 \<le> a"
  proof (cases "k = 0")
    case True then show ?thesis by (simp add: a_def)
  next
    case False
    then have "1 \<le> k" by simp
    then have "(of_nat 1 :: rat) \<le> of_nat k" by (simp only: of_nat_le_iff)
    then show ?thesis by (simp add: a_def)
  qed
  have gb: "b = 0 \<or> 1 / 10 \<le> b"
  proof (cases "l = 0")
    case True then show ?thesis by (simp add: b_def)
  next
    case False
    then have "1 \<le> l" by simp
    then have "(of_nat 1 :: rat) \<le> of_nat l" by (simp only: of_nat_le_iff)
    then show ?thesis by (simp add: b_def)
  qed
  have ab: "1 / 10 \<le> a + b"
  proof -
    from nz have "k \<noteq> 0 \<or> l \<noteq> 0" by simp
    then have "(a \<noteq> 0) \<or> (b \<noteq> 0)" by (simp add: a_def b_def)
    with ga gb a(1) b(1) show ?thesis by linarith
  qed
  have wp: "\<bar>wp - a\<bar> \<le> 1 / 1000000000" "0 \<le> wp"
    unfolding wp_def a_def using grid64 [OF k] by simp_all
  have wr: "\<bar>wr - b\<bar> \<le> 1 / 1000000000" "0 \<le> wr"
    unfolding wr_def b_def using grid64 [OF l] by simp_all
  have s0: "0 \<le> wp + wr" using wp(2) wr(2) by simp
  have "wp + wr \<le> 201" using wp(1) wr(1) a(2) b(2) by linarith
  then have s1: "wp + wr < 2 ^ 15" by simp
  define vs where "vs = num_val (round64 (wp + wr))"
  have vs: "add64 (Fin wp) (Fin wr) = Fin vs" "\<bar>vs - (wp + wr)\<bar> \<le> 1 / 1000000000"
    unfolding vs_def add64_Fin using round64_close [OF s0 s1] by simp_all
  have d0: "0 \<le> 2 * wp" using wp(2) by simp
  have "2 * wp \<le> 201" using wp(1) a(2) by linarith
  then have d1: "2 * wp < 2 ^ 15" by simp
  define t1 where "t1 = num_val (round64 (2 * wp))"
  have t1: "mul64 (Fin 2) (Fin wp) = Fin t1" "\<bar>t1 - 2 * wp\<bar> \<le> 1 / 1000000000" "0 \<le> t1"
    unfolding t1_def mul64_Fin using round64_close [OF d0 d1] by simp_all
  have p0: "0 \<le> t1 * wr" using t1(3) wr(2) by simp
  have "t1 \<le> 201" using t1(2) wp(1) a(2) by linarith
  moreover have "wr \<le> 101" using wr(1) b(2) by linarith
  ultimately have "t1 * wr \<le> 201 * 101" using wr(2) by (intro mult_mono) simp_all
  then have p1: "t1 * wr < 2 ^ 15" by simp
  define t2 where "t2 = num_val (round64 (t1 * wr))"
  have t2: "mul64 (Fin t1) (Fin wr) = Fin t2" "\<bar>t2 - t1 * wr\<bar> \<le> 1 / 1000000000" "0 \<le> t2"
    unfolding t2_def mul64_Fin using round64_close [OF p0 p1] by simp_all
  note q = f1_quotient_bounds [OF a b ab ga gb wp wr t1(2,3) t2(2,3) vs(2)]
  have vnz: "vs \<noteq> 0" using q(1) by simp
  have up: "t2 / vs \<le> max a b + 1 / 25" using q(1,3) by (simp add: pos_divide_le_eq)
  have low: "min a b - 1 / 25 \<le> t2 / vs" using q(1,2) by (simp add: pos_le_divide_eq)
  have h0: "0 \<le> t2 / vs" using t2(3) q(1) by simp
  have "max a b \<le> 100" using a(2) b(2) by simp
  with up have "t2 / vs \<le> 101" by linarith
  then have h1: "t2 / vs < 2 ^ 15" by simp
  define h where "h = num_val (round64 (t2 / vs))"
  have h: "div64 (Fin t2) (Fin vs) = Fin h" "\<bar>h - t2 / vs\<bar> \<le> 1 / 1000000000" "0 \<le> h"
    unfolding h_def div64_Fin [OF vnz] using round64_close [OF h0 h1] by simp_all
  have f: "f1_64 (Fin wp) (Fin wr) = toFixed 1 (Fin h)"
    using q(1) by (simp only: f1_64_def vs(1) t1(1) t2(1) h(1) js_gt.simps if_True)
  have pf: "parseFloat64 (f1_64 (Fin wp) (Fin wr)) = round64 (tenths h)"
    unfolding f by (rule parseFloat64_toFixed_1 [OF h(3)])
  have mn: "min a b = of_nat (min k l) / 10"
    by (simp add: a_def b_def min_def divide_le_cancel)
  have mx: "max a b = of_nat (max k l) / 10"
    by (simp add: a_def b_def max_def divide_le_cancel)
  have "of_nat (min k l) / 10 - 1 / 20 < h" using low h(2) unfolding mn by linarith
  moreover have "h < of_nat (max k l) / 10 + 1 / 20" using up h(2) unfolding mx by linarith
  ultimately obtain n where n: "min k l \<le> n" "n \<le> max k l" "tenths h = of_nat n / 10"
    using round_tenths_between by blast
  have "n \<le> 1000" using n(2) k l by simp
  then have "round64 (of_nat n / 10) = Fin (grid64 n)" by (rule grid64)
  with pf n(3) have "parseFloat64 (f1_64 (Fin wp) (Fin wr)) = Fin (grid64 n)" by simp
  with n(1,2) show ?thesis unfolding wp_def wr_def by blast
qed

lemma stats64_assemble:
  assumes "toFixed 1 (accuracy64 m) = sa" and "toFixed 1 (precision64 m) = sp"
    and "toFixed 1 (recall64 m) = sr" and "f1_64 (parseFloat64 sp) (parseFloat64 sr) = sf"
  shows "ConfusionMatrix64 m = \<lparr>accuracy = sa, precision = sp, recall = sr, f1Score = sf\<rparr>"
proof -
  have "accuracy (ConfusionMatrix64 m) = sa" "precision (ConfusionMatrix64 m) = sp"
    "recall (ConfusionMatrix64 m) = sr"
    using assms(1-3) by (simp_all only: stats64_fields)
  moreover from this assms(4) have "f1Score (ConfusionMatrix64 m) = sf"
    by (simp only: stats64_fields(4))
  ultimately show ?thesis by (cases "ConfusionMatrix64 m") simp
qed

lemma percent64_parsed:
  fixes a b :: rat
  assumes "0 \<le> a" and "0 < b" and "1000000000 * a \<le> 1000000001 * b"
  defines "x \<equiv> mul64 (div64 (Fin a) (Fin b)) (Fin 100)"
  shows "\<exists>k \<le> 1000. parseFloat64 (toFixed 1 x) = Fin (grid64 k)"
proof -
  note p = percent64 [OF assms(1-3), folded x_def]
  have "parseFloat64 (toFixed 1 (Fin (num_val x))) = round64 (tenths (num_val x))"
    by (rule parseFloat64_toFixed_1 [OF p(2)])
  then have pr: "parseFloat64 (toFixed 1 x) = round64 (tenths (num_val x))"
    using p(1) by simp
  from tenths_grid [OF p(2,3)] obtain k where k: "k \<le> 1000" "tenths (num_val x) = of_nat k / 10"
    by blast
  from k(1) have "round64 (of_nat k / 10) = Fin (grid64 k)" by (rule grid64)
  with pr k show ?thesis by auto
qed

lemma stats64_percent:
  fixes tn fp fn tp :: nat
  assumes "0 < tp + fp" and "0 < tp + fn" and "tn + fp + fn + tp < 2 ^ 1023"
  shows "\<exists>k \<le> 1000. parseFloat64 (toFixed 1 (accuracy64 ((tn, fp), (fn, tp)))) = Fin (grid64 k)"
    and "\<exists>k \<le> 1000. parseFloat64 (toFixed 1 (precision64 ((tn, fp), (fn, tp)))) = Fin (grid64 k)"
    and "\<exists>k \<le> 1000. parseFloat64 (toFixed 1 (recall64 ((tn, fp), (fn, tp)))) = Fin (grid64 k)"
proof -
  note s = sums64 [OF assms(3)]
  have a: "accuracy64 ((tn, fp), (fn, tp)) =
      mul64 (div64 (Fin (num_val (add64 (num64 tn) (num64 tp))))
        (Fin (num_val (add64 (add64 (add64 (num64 tn) (num64 fp)) (num64 fn)) (num64 tp)))))
        (Fin 100)"
    by (simp only: accuracy64_def prod.case s(1) [symmetric] s(2) [symmetric])
  show "\<exists>k \<le> 1000. parseFloat64 (toFixed 1 (accuracy64 ((tn, fp), (fn, tp)))) = Fin (grid64 k)"
    unfolding a by (rule percent64_parsed [OF s(6) s(8) [OF assms(1)] s(11)])
  have p: "precision64 ((tn, fp), (fn, tp)) =
      mul64 (div64 (Fin (num_val (num64 tp))) (Fin (num_val (add64 (num64 tp) (num64 fp)))))
        (Fin 100)"
    by (simp only: precision64_def prod.case s(3) [symmetric] s(4) [symmetric])
  show "\<exists>k \<le> 1000. parseFloat64 (toFixed 1 (precision64 ((tn, fp), (fn, tp)))) = Fin (grid64 k)"
    unfolding p by (rule percent64_parsed [OF s(7) s(9) [OF assms(1)] s(12)])
  have r: "recall64 ((tn, fp), (fn, tp)) =
      mul64 (div64 (Fin (num_val (num64 tp))) (Fin (num_val (add64 (num64 tp) (num64 fn)))))
        (Fin 100)"
    by (simp only: recall64_def prod.case s(3) [symmetric] s(5) [symmetric])
  show "\<exists>k \<le> 1000. parseFloat64 (toFixed 1 (recall64 ((tn, fp), (fn, tp)))) = Fin (grid64 k)"
    unfolding r by (rule percent64_parsed [OF s(7) s(10) [OF assms(2)] s(13)])
qed

lemma stats64_finite:
  fixes tn fp fn tp :: nat
  shows "0 < tp + fp \<Longrightarrow> tp + fp < 2 ^ 1023
      \<Longrightarrow> \<exists>v. precision64 ((tn, fp), (fn, tp)) = Fin v \<and> 0 \<le> v"
    and "0 < tp + fn \<Longrightarrow> tp + fn < 2 ^ 1023
      \<Longrightarrow> \<exists>v. recall64 ((tn, fp), (fn, tp)) = Fin v \<and> 0 \<le> v"
proof -
  show "\<exists>v. precision64 ((tn, fp), (fn, tp)) = Fin v \<and> 0 \<le> v"
    if "0 < tp + fp" and "tp + fp < 2 ^ 1023"
  proof -
    from that(2) have "0 + fp + 0 + tp < 2 ^ 1023" by simp
    note s = sums64 [OF this]
    have p: "precision64 ((tn, fp), (fn, tp)) =
        mul64 (div64 (Fin (num_val (num64 tp))) (Fin (num_val (add64 (num64 tp) (num64 fp)))))
          (Fin 100)"
      by (simp only: precision64_def prod.case s(3) [symmetric] s(4) [symmetric])
    note q = percent64 [OF s(7) s(9) [OF that(1)] s(12), folded p]
    from q(1,2) show ?thesis by blast
  qed
  show "\<exists>v. recall64 ((tn, fp), (fn, tp)) = Fin v \<and> 0 \<le> v"
    if "0 < tp + fn" and "tp + fn < 2 ^ 1023"
  proof -
    from that(2) have "0 + 0 + fn + tp < 2 ^ 1023" by simp
    note s = sums64 [OF this]
    have r: "recall64 ((tn, fp), (fn, tp)) =
        mul64 (div64 (Fin (num_val (num64 tp))) (Fin (num_val (add64 (num64 tp) (num64 fn)))))
          (Fin 100)"
      by (simp only: recall64_def prod.case s(3) [symmetric] s(5) [symmetric])
    note q = percent64 [OF s(7) s(10) [OF that(1)] s(13), folded r]
    from q(1,2) show ?thesis by blast
  qed
qed

lemma grid64_in_range: "k \<le> 1000 \<Longrightarrow> in_percent_range (Fin (grid64 k))"
  by (simp add: in_percent_range_def grid64 grid64_le_100)


subsection \<open>Sample matrices\<close>

text \<open>
  On the matrix of the mock report binary64 and exact arithmetic print the same four
  strings. On \<open>[[0, 57], [0, 23]]\<close> they do not: \<open>23/80*100\<close> is \<open>28.75\<close>, printed \<open>28.8\<close>, and in
  binary64 it is a number just below, printed \<open>28.7\<close>.
\<close>

lemma parseFloat64_NaN: "parseFloat64 ''NaN'' = NaN"
  by (simp add: parseFloat64_def parseFloat_NaN fl_def)

lemma parseFloat64_NA: "parseFloat64 ''N/A'' = NaN"
  by (simp add: parseFloat64_def parseFloat_NA fl_def)

lemma parseFloat64_zero: "parseFloat64 ''0.0'' = Fin 0"
  by (simp add: parseFloat64_def parse_eval fl_def round64_def)

lemma f1_64_zero: "f1_64 (Fin 0) (Fin 0) = ''N/A''"
  by (simp add: f1_64_def add64_def fl_def round64_def)

lemma stats64_reference:
  "ConfusionMatrix64 ((4250, 350), (420, 4980)) =
     \<lparr>accuracy = ''92.3'', precision = ''93.4'', recall = ''92.2'', f1Score = ''92.8''\<rparr>"
proof (rule stats64_assemble)
  have a: "accuracy64 ((4250, 350), (420, 4980)) = Fin (1623758771899597 / 17592186044416)"
    by (simp add: accuracy64_def r64_eval)
  show "toFixed 1 (accuracy64 ((4250, 350), (420, 4980))) = ''92.3''"
    unfolding a by (simp add: print_eval)
  have p: "precision64 ((4250, 350), (420, 4980)) = Fin (6574790731796749 / 70368744177664)"
    by (simp add: precision64_def r64_eval)
  show "toFixed 1 (precision64 ((4250, 350), (420, 4980))) = ''93.4''"
    unfolding p by (simp add: print_eval)
  have r: "recall64 ((4250, 350), (420, 4980)) = Fin (1622390490762809 / 17592186044416)"
    by (simp add: recall64_def r64_eval)
  show "toFixed 1 (recall64 ((4250, 350), (420, 4980))) = ''92.2''"
    unfolding r by (simp add: print_eval)
  have pp: "parseFloat ''93.4'' = Fin (934 / 10)" and pr: "parseFloat ''92.2'' = Fin (922 / 10)"
    by (simp_all add: parse_eval)
  have wp: "parseFloat64 ''93.4'' = Fin (3286220353096909 / 35184372088832)"
    unfolding parseFloat64_def pp by (simp add: r64_eval)
  have wr: "parseFloat64 ''92.2'' = Fin (6487998213180621 / 70368744177664)"
    unfolding parseFloat64_def pr by (simp add: r64_eval)
  have s: "add64 (Fin (3286220353096909 / 35184372088832)) (Fin (6487998213180621 / 70368744177664))
            = Fin (1632554864921805 / 8796093022208)"
    by (simp add: r64_eval)
  have h: "div64 (mul64 (mul64 (Fin 2) (Fin (3286220353096909 / 35184372088832)))
                   (Fin (6487998213180621 / 70368744177664)))
             (Fin (1632554864921805 / 8796093022208)) = Fin (6529946477489979 / 70368744177664)"
    by (simp add: r64_eval)
  show "f1_64 (parseFloat64 ''93.4'') (parseFloat64 ''92.2'') = ''92.8''"
    unfolding wp wr f1_64_def s h by (simp add: print_eval)
qed

lemma stats64_sample:
  "ConfusionMatrix64 ((0, 57), (0, 23)) =
     \<lparr>accuracy = ''28.7'', precision = ''28.7'', recall = ''100.0'', f1Score = ''44.6''\<rparr>"
proof (rule stats64_assemble)
  have a: "accuracy64 ((0, 57), (0, 23)) = Fin (8092405580431359 / 281474976710656)"
    by (simp add: accuracy64_def r64_eval)
  show "toFixed 1 (accuracy64 ((0, 57), (0, 23))) = ''28.7''"
    unfolding a by (simp add: print_eval)
  have p: "precision64 ((0, 57), (0, 23)) = Fin (8092405580431359 / 281474976710656)"
    by (simp add: precision64_def r64_eval)
  show "toFixed 1 (precision64 ((0, 57), (0, 23))) = ''28.7''"
    unfolding p by (simp add: print_eval)
  have r: "recall64 ((0, 57), (0, 23)) = Fin 100"
    by (simp add: recall64_def r64_eval)
  show "toFixed 1 (recall64 ((0, 57), (0, 23))) = ''100.0''"
    unfolding r by (simp add: print_eval)
  have pp: "parseFloat ''28.7'' = Fin (287 / 10)" and pr: "parseFloat ''100.0'' = Fin 100"
    by (simp_all add: parse_eval)
  have wp: "parseFloat64 ''28.7'' = Fin (8078331831595827 / 281474976710656)"
    unfolding parseFloat64_def pp by (simp add: r64_eval)
  have wr: "parseFloat64 ''100.0'' = Fin 100"
    unfolding parseFloat64_def pr by (simp add: r64_eval)
  have s: "add64 (Fin (8078331831595827 / 281474976710656)) (Fin 100)
            = Fin (2264114343916339 / 17592186044416)"
    by (simp add: r64_eval)
  have h: "div64 (mul64 (mul64 (Fin 2) (Fin (8078331831595827 / 281474976710656))) (Fin 100))
             (Fin (2264114343916339 / 17592186044416)) = Fin (1569217527505017 / 35184372088832)"
    by (simp add: r64_eval)
  show "f1_64 (parseFloat64 ''28.7'') (parseFloat64 ''100.0'') = ''44.6''"
    unfolding wp wr f1_64_def s h by (simp add: print_eval)
qed

lemma stats_exact_sample:
  "ConfusionMatrix ((0, 57), (0, 23)) =
     \<lparr>accuracy = ''28.8'', precision = ''28.8'', recall = ''100.0'', f1Score = ''44.7''\<rparr>"
  by (simp add: ConfusionMatrix_def num_def print_eval parse_eval)

lemma stats64_no_true_positive:
  "ConfusionMatrix64 ((2, 2), (2, 0)) =
     \<lparr>accuracy = ''33.3'', precision = ''0.0'', recall = ''0.0'', f1Score = ''N/A''\<rparr>"
proof (rule stats64_assemble)
  have a: "accuracy64 ((2, 2), (2, 0)) = Fin (2345624805922133 / 70368744177664)"
    by (simp add: accuracy64_def r64_eval)
  show "toFixed 1 (accuracy64 ((2, 2), (2, 0))) = ''33.3''"
    unfolding a by (simp add: print_eval)
  have p: "precision64 ((2, 2), (2, 0)) = Fin 0"
    by (simp add: precision64_def r64_eval)
  show "toFixed 1 (precision64 ((2, 2), (2, 0))) = ''0.0''"
    unfolding p by (simp add: print_eval)
  have r: "recall64 ((2, 2), (2, 0)) = Fin 0"
    by (simp add: recall64_def r64_eval)
  show "toFixed 1 (recall64 ((2, 2), (2, 0))) = ''0.0''"
    unfolding r by (simp add: print_eval)
  show "f1_64 (parseFloat64 ''0.0'') (parseFloat64 ''0.0'') = ''N/A''"
    by (simp only: parseFloat64_zero f1_64_zero)
qed

lemma stats64_rare_true_positive:
  "ConfusionMatrix64 ((0, 5000), (5000, 2)) =
     \<lparr>accuracy = ''0.0'', precision = ''0.0'', recall = ''0.0'', f1Score = ''N/A''\<rparr>"
proof (rule stats64_assemble)
  have a: "accuracy64 ((0, 5000), (5000, 2)) = Fin (5763454832067821 / 288230376151711744)"
    by (simp add: accuracy64_def r64_eval)
  show "toFixed 1 (accuracy64 ((0, 5000), (5000, 2))) = ''0.0''"
    unfolding a by (simp add: print_eval)
  have p: "precision64 ((0, 5000), (5000, 2)) = Fin (2881151300996719 / 72057594037927936)"
    by (simp add: precision64_def r64_eval)
  show "toFixed 1 (precision64 ((0, 5000), (5000, 2))) = ''0.0''"
    unfolding p by (simp add: print_eval)
  have r: "recall64 ((0, 5000), (5000, 2)) = Fin (2881151300996719 / 72057594037927936)"
    by (simp add: recall64_def r64_eval)
  show "toFixed 1 (recall64 ((0, 5000), (5000, 2))) = ''0.0''"
    unfolding r by (simp add: print_eval)
  show "f1_64 (parseFloat64 ''0.0'') (parseFloat64 ''0.0'') = ''N/A''"
    by (simp only: parseFloat64_zero f1_64_zero)
qed

lemma accuracy64_overflow: "accuracy64 ((2 ^ 1023, 0), (0, 2 ^ 1023)) = NaN"
proof -
  have n: "num64 (2 ^ 1023) = Fin (2 ^ 1023)"
    by (simp add: num64_def round64_def ilog2_def round_even_def bitlength.simps)
  have z: "num64 0 = Fin 0" by (simp add: num64_def round64_def)
  have k: "add64 (Fin (2 ^ 1023)) (Fin 0) = Fin (2 ^ 1023)"
    using n by (simp add: add64_def fl_def num64_def)
  have s: "add64 (Fin (2 ^ 1023)) (Fin (2 ^ 1023)) = PInf"
    by (simp add: add64_def fl_def round64_def ilog2_def round_even_def bitlength.simps inf_of_def)
  show ?thesis
    by (simp only: accuracy64_def prod.case n z k s) (simp add: div64_def mul64_def fl_def)
qed

lemma stats64_balanced:
  "ConfusionMatrix64 ((6, 2), (2, 6)) =
     \<lparr>accuracy = ''75.0'', precision = ''75.0'', recall = ''75.0'', f1Score = ''75.0''\<rparr>"
proof (rule stats64_assemble)
  have a: "accuracy64 ((6, 2), (2, 6)) = Fin 75"
    by (simp add: accuracy64_def r64_eval)
  show "toFixed 1 (accuracy64 ((6, 2), (2, 6))) = ''75.0''"
    unfolding a by (simp add: print_eval)
  have p: "precision64 ((6, 2), (2, 6)) = Fin 75"
    by (simp add: precision64_def r64_eval)
  show "toFixed 1 (precision64 ((6, 2), (2, 6))) = ''75.0''"
    unfolding p by (simp add: print_eval)
  have r: "recall64 ((6, 2), (2, 6)) = Fin 75"
    by (simp add: recall64_def r64_eval)
  show "toFixed 1 (recall64 ((6, 2), (2, 6))) = ''75.0''"
    unfolding r by (simp add: print_eval)
  have pp: "parseFloat ''75.0'' = Fin 75" by (simp add: parse_eval)
  have wp: "parseFloat64 ''75.0'' = Fin 75"
    unfolding parseFloat64_def pp by (simp add: r64_eval)
  have s: "add64 (Fin 75) (Fin 75) = Fin 150" by (simp add: r64_eval)
  have h: "div64 (mul64 (mul64 (Fin 2) (Fin 75)) (Fin 75)) (Fin 150) = Fin 75"
    by (simp add: r64_eval)
  show "f1_64 (parseFloat64 ''75.0'') (parseFloat64 ''75.0'') = ''75.0''"
    unfolding wp f1_64_def s h by (simp add: print_eval)
qed

lemma parseFloat64_75: "parseFloat64 ''75.0'' = Fin 75"
proof -
  have pp: "parseFloat ''75.0'' = Fin 75" by (simp add: parse_eval)
  show ?thesis unfolding parseFloat64_def pp by (simp add: r64_eval)
qed

lemma stats64_double_rounding:
  "ConfusionMatrix64 ((0, 3), (4, 2)) =
     \<lparr>accuracy = ''22.2'', precision = ''40.0'', recall = ''33.3'', f1Score = ''36.3''\<rparr>"
proof (rule stats64_assemble)
  have a: "accuracy64 ((0, 3), (4, 2)) = Fin (3127499741229511 / 140737488355328)"
    by (simp add: accuracy64_def r64_eval)
  show "toFixed 1 (accuracy64 ((0, 3), (4, 2))) = ''22.2''"
    unfolding a by (simp add: print_eval)
  have p: "precision64 ((0, 3), (4, 2)) = Fin 40"
    by (simp add: precision64_def r64_eval)
  show "toFixed 1 (precision64 ((0, 3), (4, 2))) = ''40.0''"
    unfolding p by (simp add: print_eval)
  have r: "recall64 ((0, 3), (4, 2)) = Fin (2345624805922133 / 70368744177664)"
    by (simp add: recall64_def r64_eval)
  show "toFixed 1 (recall64 ((0, 3), (4, 2))) = ''33.3''"
    unfolding r by (simp add: print_eval)
  have pp: "parseFloat ''40.0'' = Fin 40" and pr: "parseFloat ''33.3'' = Fin (333 / 10)"
    by (simp_all add: parse_eval)
  have wp: "parseFloat64 ''40.0'' = Fin 40"
    unfolding parseFloat64_def pp by (simp add: r64_eval)
  have wr: "parseFloat64 ''33.3'' = Fin (2343279181116211 / 70368744177664)"
    unfolding parseFloat64_def pr by (simp add: r64_eval)
  have s: "add64 (Fin 40) (Fin (2343279181116211 / 70368744177664))
            = Fin (5158028948222771 / 70368744177664)"
    by (simp add: r64_eval)
  have h: "div64 (mul64 (mul64 (Fin 2) (Fin 40)) (Fin (2343279181116211 / 70368744177664)))
             (Fin (5158028948222771 / 70368744177664)) = Fin (5114934092477405 / 140737488355328)"
    by (simp add: r64_eval)
  show "f1_64 (parseFloat64 ''40.0'') (parseFloat64 ''33.3'') = ''36.3''"
    unfolding wp wr f1_64_def s h by (simp add: print_eval)
qed

lemma unrounded64_double_rounding:
  "precision64 ((0, 3), (4, 2)) = Fin 40"
  "recall64 ((0, 3), (4, 2)) = Fin (2345624805922133 / 70368744177664)"
  "f1_64 (Fin 40) (Fin (2345624805922133 / 70368744177664)) = ''36.4''"
proof -
  show "precision64 ((0, 3), (4, 2)) = Fin 40"
    by (simp add: precision64_def r64_eval)
  show "recall64 ((0, 3), (4, 2)) = Fin (2345624805922133 / 70368744177664)"
    by (simp add: recall64_def r64_eval)
  have s: "add64 (Fin 40) (Fin (2345624805922133 / 70368744177664))
            = Fin (5160374573028693 / 70368744177664)"
    by (simp add: r64_eval)
  have h: "div64 (mul64 (mul64 (Fin 2) (Fin 40)) (Fin (2345624805922133 / 70368744177664)))
             (Fin (5160374573028693 / 70368744177664)) = Fin (2558863424642327 / 70368744177664)"
    by (simp add: r64_eval)
  show "f1_64 (Fin 40) (Fin (2345624805922133 / 70368744177664)) = ''36.4''"
    unfolding f1_64_def s h by (simp add: print_eval)
qed

lemma exact_unrounded_f1_double_rounding:
  "toFixed 1 (Fin (unrounded_f1 ((0, 3), (4, 2)))) = ''36.4''"
  by (simp add: unrounded_f1_def exact_precision_def exact_recall_def print_eval)


section \<open>Ranges of the statistics\<close>

text \<open>
  Claim C4, as amended. For counts with \<open>tp + fp > 0\<close> and \<open>tp + fn > 0\<close> whose total is
  below \<open>2^1023\<close> (so that no sum of counts overflows), the displayed accuracy, precision
  and recall are percentages between \<open>0\<close> and \<open>100\<close>, and unless the displayed
  precision and recall are both \<open>0.0\<close> the displayed F1 score lies between the smaller
  and the larger of the two. Counts above \<open>2^53\<close> are included: they and their sums are
  rounded, and the bounds survive the rounding.
\<close>

theorem stats64_in_range_f1_between:
  fixes tn fp fn tp :: nat
  assumes "0 < tp + fp" and "0 < tp + fn" and "tn + fp + fn + tp < 2 ^ 1023"
  shows "in_percent_range (parseFloat64 (accuracy (ConfusionMatrix64 ((tn, fp), (fn, tp)))))
     \<and> in_percent_range (parseFloat64 (precision (ConfusionMatrix64 ((tn, fp), (fn, tp)))))
     \<and> in_percent_range (parseFloat64 (recall (ConfusionMatrix64 ((tn, fp), (fn, tp)))))
     \<and> (\<not> (parseFloat64 (precision (ConfusionMatrix64 ((tn, fp), (fn, tp)))) = Fin 0
             \<and> parseFloat64 (recall (ConfusionMatrix64 ((tn, fp), (fn, tp)))) = Fin 0)
          \<longrightarrow> f1_between64 (ConfusionMatrix64 ((tn, fp), (fn, tp))))"
proof -
  let ?m = "((tn, fp), (fn, tp))"
  let ?s = "ConfusionMatrix64 ?m"
  note v = stats64_percent [OF assms]
  from v(1) obtain j where j: "j \<le> 1000" "parseFloat64 (accuracy ?s) = Fin (grid64 j)"
    unfolding stats64_fields by blast
  from v(2) obtain k where k: "k \<le> 1000" "parseFloat64 (precision ?s) = Fin (grid64 k)"
    unfolding stats64_fields by blast
  from v(3) obtain l where l: "l \<le> 1000" "parseFloat64 (recall ?s) = Fin (grid64 l)"
    unfolding stats64_fields by blast
  have ra: "in_percent_range (parseFloat64 (accuracy ?s))"
    unfolding j(2) by (rule grid64_in_range [OF j(1)])
  have rp: "in_percent_range (parseFloat64 (precision ?s))"
    unfolding k(2) by (rule grid64_in_range [OF k(1)])
  have rr: "in_percent_range (parseFloat64 (recall ?s))"
    unfolding l(2) by (rule grid64_in_range [OF l(1)])
  have f1: "\<not> (parseFloat64 (precision ?s) = Fin 0 \<and> parseFloat64 (recall ?s) = Fin 0)
          \<longrightarrow> f1_between64 ?s"
  proof
    assume "\<not> (parseFloat64 (precision ?s) = Fin 0 \<and> parseFloat64 (recall ?s) = Fin 0)"
    then have g: "\<not> (grid64 k = 0 \<and> grid64 l = 0)" by (simp add: k(2) l(2))
    have nz: "\<not> (k = 0 \<and> l = 0)"
    proof
      assume "k = 0 \<and> l = 0"
      then have "grid64 k = 0 \<and> grid64 l = 0" by (simp add: grid64_zero)
      with g show False by simp
    qed
    from f1_64_grid [OF k(1) l(1) nz]
    obtain n where n: "min k l \<le> n" "n \<le> max k l"
      "parseFloat64 (f1_64 (Fin (grid64 k)) (Fin (grid64 l))) = Fin (grid64 n)" by blast
    have pf: "parseFloat64 (f1Score ?s) = Fin (grid64 n)"
      by (simp only: stats64_fields(4) k(2) l(2) n(3))
    have mx: "max k l \<le> 1000" using k(1) l(1) by simp
    have n1000: "n \<le> 1000" using n(2) mx by (rule order_trans)
    have lo: "grid64 (min k l) \<le> grid64 n" using n(1) n1000 by (rule grid64_mono)
    have hi: "grid64 n \<le> grid64 (max k l)" using n(2) mx by (rule grid64_mono)
    have "min (grid64 k) (grid64 l) \<le> grid64 (min k l)" by (simp add: min_def)
    with lo have lo': "min (grid64 k) (grid64 l) \<le> grid64 n" by linarith
    have "grid64 (max k l) \<le> max (grid64 k) (grid64 l)" by (simp add: max_def)
    with hi have hi': "grid64 n \<le> max (grid64 k) (grid64 l)" by linarith
    from lo' hi' show "f1_between64 ?s"
      by (simp only: f1_between64_def pf k(2) l(2) between_num.simps)
  qed
  from ra rp rr f1 show ?thesis by blast
qed

theorem stats64_in_range_f1_between_witness:
  "(0::nat) < 6 + 2 \<and> (0::nat) < 6 + 2 \<and> (6 + 2 + 2 + 6 :: nat) < 2 ^ 1023
   \<and> parseFloat64 (precision (ConfusionMatrix64 ((6, 2), (2, 6)))) = Fin 75
   \<and> in_percent_range (parseFloat64 (accuracy (ConfusionMatrix64 ((6, 2), (2, 6)))))
   \<and> in_percent_range (parseFloat64 (precision (ConfusionMatrix64 ((6, 2), (2, 6)))))
   \<and> in_percent_range (parseFloat64 (recall (ConfusionMatrix64 ((6, 2), (2, 6)))))
   \<and> f1_between64 (ConfusionMatrix64 ((6, 2), (2, 6)))"
proof -
  have a: "(0::nat) < 6 + 2" by simp
  have b: "(6 + 2 + 2 + 6 :: nat) < 2 ^ 1023" by simp
  have p: "parseFloat64 (precision (ConfusionMatrix64 ((6, 2), (2, 6)))) = Fin 75"
    by (simp add: stats64_balanced parseFloat64_75)
  then have nz: "\<not> (parseFloat64 (precision (ConfusionMatrix64 ((6, 2), (2, 6)))) = Fin 0
      \<and> parseFloat64 (recall (ConfusionMatrix64 ((6, 2), (2, 6)))) = Fin 0)"
    by simp
  note t = stats64_in_range_f1_between [OF a a b]
  from t nz have "f1_between64 (ConfusionMatrix64 ((6, 2), (2, 6)))" by blast
  with t a b p show ?thesis by blast
qed

text \<open>
  Each restriction is needed. With no true positive (\<open>[[2, 2], [2, 0]]\<close>), and also with true
  positives so rare that precision and recall are displayed as \<open>0.0\<close>
  (\<open>[[0, 5000], [5000, 2]]\<close>), the F1 score is \<open>N/A\<close>, which is no number between them. With
  counts of \<open>2^1023\<close> the total is infinite and the accuracy is displayed as \<open>NaN\<close>.
\<close>

theorem f1_64_not_between_or_out_of_range:
  "(0::nat) < 0 + 2 \<and> (2 + 2 + 2 + 0 :: nat) < 2 ^ 1023
   \<and> f1Score (ConfusionMatrix64 ((2, 2), (2, 0))) = ''N/A''
   \<and> \<not> f1_between64 (ConfusionMatrix64 ((2, 2), (2, 0)))
   \<and> (0::nat) < 2 + 5000 \<and> (0 + 5000 + 5000 + 2 :: nat) < 2 ^ 1023
   \<and> f1Score (ConfusionMatrix64 ((0, 5000), (5000, 2))) = ''N/A''
   \<and> \<not> f1_between64 (ConfusionMatrix64 ((0, 5000), (5000, 2)))
   \<and> (0::nat) < 2 ^ 1023 + 0
   \<and> accuracy (ConfusionMatrix64 ((2 ^ 1023, 0), (0, 2 ^ 1023))) = ''NaN''
   \<and> \<not> in_percent_range (parseFloat64 (accuracy (ConfusionMatrix64 ((2 ^ 1023, 0), (0, 2 ^ 1023)))))"
proof -
  have a: "f1Score (ConfusionMatrix64 ((2, 2), (2, 0))) = ''N/A''
      \<and> \<not> f1_between64 (ConfusionMatrix64 ((2, 2), (2, 0)))"
    by (simp add: stats64_no_true_positive f1_between64_def parseFloat64_NA)
  have b: "f1Score (ConfusionMatrix64 ((0, 5000), (5000, 2))) = ''N/A''
      \<and> \<not> f1_between64 (ConfusionMatrix64 ((0, 5000), (5000, 2)))"
    by (simp add: stats64_rare_true_positive f1_between64_def parseFloat64_NA)
  have c: "accuracy (ConfusionMatrix64 ((2 ^ 1023, 0), (0, 2 ^ 1023))) = ''NaN''"
    by (simp only: stats64_fields accuracy64_overflow toFixed.simps)
  have d: "\<not> in_percent_range (parseFloat64 (accuracy (ConfusionMatrix64 ((2 ^ 1023, 0), (0, 2 ^ 1023)))))"
    by (simp only: c parseFloat64_NaN) (simp add: in_percent_range_def)
  have e: "(0::nat) < 0 + 2" "(2 + 2 + 2 + 0 :: nat) < 2 ^ 1023" "(0::nat) < 2 + 5000"
    "(0 + 5000 + 5000 + 2 :: nat) < 2 ^ 1023" "(0::nat) < 2 ^ 1023 + 0"
    by simp_all
  from a b c d e show ?thesis by blast
qed

section \<open>Where the rounding happens\<close>

text \<open>
  Claim C5, as amended. Accuracy, precision and recall are each computed from the counts
  with no rounding to decimals and are rounded to one decimal place once, when printed.
  The F1 score is computed from the precision and the recall as rounded to one decimal
  place: its operands are the two display strings parsed back, and for a precision or
  recall that is a finite non-negative number \<open>v\<close> (as it is whenever its denominator is
  positive and below \<open>2^1023\<close>) that operand is the binary64 value nearest to \<open>v\<close> rounded
  to one decimal place. The statistics are a function of the matrix alone.
\<close>

theorem stats64_rounded_once_f1_from_rounded:
  fixes tn fp fn tp :: nat
  shows "accuracy (ConfusionMatrix64 ((tn, fp), (fn, tp))) = toFixed 1 (accuracy64 ((tn, fp), (fn, tp)))
     \<and> precision (ConfusionMatrix64 ((tn, fp), (fn, tp))) = toFixed 1 (precision64 ((tn, fp), (fn, tp)))
     \<and> recall (ConfusionMatrix64 ((tn, fp), (fn, tp))) = toFixed 1 (recall64 ((tn, fp), (fn, tp)))
     \<and> f1Score (ConfusionMatrix64 ((tn, fp), (fn, tp))) =
          f1_64 (parseFloat64 (precision (ConfusionMatrix64 ((tn, fp), (fn, tp)))))
                (parseFloat64 (recall (ConfusionMatrix64 ((tn, fp), (fn, tp)))))
     \<and> (\<forall>v. precision64 ((tn, fp), (fn, tp)) = Fin v \<and> 0 \<le> v
            \<longrightarrow> parseFloat64 (precision (ConfusionMatrix64 ((tn, fp), (fn, tp)))) = round64 (tenths v))
     \<and> (\<forall>v. recall64 ((tn, fp), (fn, tp)) = Fin v \<and> 0 \<le> v
            \<longrightarrow> parseFloat64 (recall (ConfusionMatrix64 ((tn, fp), (fn, tp)))) = round64 (tenths v))
     \<and> (0 < tp + fp \<and> tp + fp < 2 ^ 1023
            \<longrightarrow> (\<exists>v. precision64 ((tn, fp), (fn, tp)) = Fin v \<and> 0 \<le> v))
     \<and> (0 < tp + fn \<and> tp + fn < 2 ^ 1023
            \<longrightarrow> (\<exists>v. recall64 ((tn, fp), (fn, tp)) = Fin v \<and> 0 \<le> v))"
proof -
  let ?m = "((tn, fp), (fn, tp))"
  have p: "\<forall>v. precision64 ?m = Fin v \<and> 0 \<le> v
            \<longrightarrow> parseFloat64 (precision (ConfusionMatrix64 ?m)) = round64 (tenths v)"
    unfolding stats64_fields by (auto simp only: parseFloat64_toFixed_1)
  have r: "\<forall>v. recall64 ?m = Fin v \<and> 0 \<le> v
            \<longrightarrow> parseFloat64 (recall (ConfusionMatrix64 ?m)) = round64 (tenths v)"
    unfolding stats64_fields by (auto simp only: parseFloat64_toFixed_1)
  have e1: "0 < tp + fp \<and> tp + fp < 2 ^ 1023 \<longrightarrow> (\<exists>v. precision64 ?m = Fin v \<and> 0 \<le> v)"
    using stats64_finite(1) [of tp fp tn fn] by blast
  have e2: "0 < tp + fn \<and> tp + fn < 2 ^ 1023 \<longrightarrow> (\<exists>v. recall64 ?m = Fin v \<and> 0 \<le> v)"
    using stats64_finite(2) [of tp fn tn fp] by blast
  show ?thesis by (intro conjI) (rule stats64_fields p r e1 e2)+
qed

theorem stats64_rounded_once_f1_from_rounded_witness:
  "precision64 ((0, 3), (4, 2)) = Fin 40 \<and> (0::rat) \<le> 40
   \<and> recall64 ((0, 3), (4, 2)) = Fin (2345624805922133 / 70368744177664)
   \<and> (0::rat) \<le> 2345624805922133 / 70368744177664
   \<and> (0::nat) < 2 + 3 \<and> (2 + 3 :: nat) < 2 ^ 1023 \<and> (0::nat) < 2 + 4 \<and> (2 + 4 :: nat) < 2 ^ 1023
   \<and> tenths 40 = 40 \<and> tenths (2345624805922133 / 70368744177664) = 333 / 10
   \<and> precision (ConfusionMatrix64 ((0, 3), (4, 2))) = toFixed 1 (precision64 ((0, 3), (4, 2)))
   \<and> parseFloat64 (precision (ConfusionMatrix64 ((0, 3), (4, 2)))) = round64 40
   \<and> parseFloat64 (recall (ConfusionMatrix64 ((0, 3), (4, 2)))) = round64 (333 / 10)
   \<and> f1Score (ConfusionMatrix64 ((0, 3), (4, 2))) = f1_64 (round64 40) (round64 (333 / 10))
   \<and> f1_64 (round64 40) (round64 (333 / 10)) = ''36.3''"
proof -
  note u = unrounded64_double_rounding(1,2)
  have n: "(0::rat) \<le> 40" "(0::rat) \<le> 2345624805922133 / 70368744177664"
    "(0::nat) < 2 + 3" "(2 + 3 :: nat) < 2 ^ 1023" "(0::nat) < 2 + 4" "(2 + 4 :: nat) < 2 ^ 1023"
    by simp_all
  have tp: "tenths 40 = 40"
    by (simp add: tenths_def floor_numeral_div_rat)
  have tr: "tenths (2345624805922133 / 70368744177664) = 333 / 10"
    by (simp add: tenths_def floor_numeral_div_rat)
  note t = stats64_rounded_once_f1_from_rounded [of 0 3 4 2]
  from t have q: "precision (ConfusionMatrix64 ((0, 3), (4, 2))) = toFixed 1 (precision64 ((0, 3), (4, 2)))"
    by blast
  from t have "\<forall>v. precision64 ((0, 3), (4, 2)) = Fin v \<and> 0 \<le> v
      \<longrightarrow> parseFloat64 (precision (ConfusionMatrix64 ((0, 3), (4, 2)))) = round64 (tenths v)"
    by blast
  with u(1) n(1) have "parseFloat64 (precision (ConfusionMatrix64 ((0, 3), (4, 2)))) = round64 (tenths 40)"
    by blast
  then have wp: "parseFloat64 (precision (ConfusionMatrix64 ((0, 3), (4, 2)))) = round64 40"
    by (simp only: tp)
  from t have "\<forall>v. recall64 ((0, 3), (4, 2)) = Fin v \<and> 0 \<le> v
      \<longrightarrow> parseFloat64 (recall (ConfusionMatrix64 ((0, 3), (4, 2)))) = round64 (tenths v)"
    by blast
  with u(2) n(2)
  have "parseFloat64 (recall (ConfusionMatrix64 ((0, 3), (4, 2))))
      = round64 (tenths (2345624805922133 / 70368744177664))"
    by blast
  then have wr: "parseFloat64 (recall (ConfusionMatrix64 ((0, 3), (4, 2)))) = round64 (333 / 10)"
    by (simp only: tr)
  from t have "f1Score (ConfusionMatrix64 ((0, 3), (4, 2))) =
      f1_64 (parseFloat64 (precision (ConfusionMatrix64 ((0, 3), (4, 2)))))
            (parseFloat64 (recall (ConfusionMatrix64 ((0, 3), (4, 2)))))"
    by blast
  then have f: "f1Score (ConfusionMatrix64 ((0, 3), (4, 2))) = f1_64 (round64 40) (round64 (333 / 10))"
    by (simp only: wp wr)
  have v: "f1_64 (round64 40) (round64 (333 / 10)) = ''36.3''"
    using f by (simp only: stats64_double_rounding confusion_stats.simps)
  from u n tp tr q wp wr f v show ?thesis by blast
qed

text \<open>
  The F1 score is not the one computed from the unrounded precision and recall: on
  \<open>[[0, 3], [4, 2]]\<close> the component displays \<open>36.3\<close>, and the unrounded operands give \<open>36.4\<close>,
  in binary64 and in exact arithmetic alike.
\<close>

theorem f1_64_from_rounded_operands_differs:
  "f1Score (ConfusionMatrix64 ((0, 3), (4, 2))) = ''36.3''
   \<and> f1_64 (precision64 ((0, 3), (4, 2))) (recall64 ((0, 3), (4, 2))) = ''36.4''
   \<and> toFixed 1 (Fin (unrounded_f1 ((0, 3), (4, 2)))) = ''36.4''
   \<and> f1Score (ConfusionMatrix64 ((0, 3), (4, 2)))
       \<noteq> f1_64 (precision64 ((0, 3), (4, 2))) (recall64 ((0, 3), (4, 2)))"
  by (simp only: stats64_double_rounding unrounded64_double_rounding
        exact_unrounded_f1_double_rounding) simp

section \<open>Zero denominators\<close>

text \<open>
  Claim C6. When \<open>tp + fp = 0\<close> the precision is \<open>0/0\<close>, which is \<open>NaN\<close>, and the component
  displays the string \<open>NaN\<close> for it, not \<open>N/A\<close>; likewise for the recall when
  \<open>tp + fn = 0\<close>. Only the F1 score is guarded: it is \<open>N/A\<close> in both cases. The matrix
  \<open>[[5, 0], [3, 0]]\<close> shows all of it.
\<close>

theorem precision_recall_NaN_on_zero_denominator:
  "precision (ConfusionMatrix ((tn, 0), (fn, 0))) = ''NaN''
   \<and> f1Score (ConfusionMatrix ((tn, 0), (fn, 0))) = ''N/A''
   \<and> recall (ConfusionMatrix ((tn, fp), (0, 0))) = ''NaN''
   \<and> f1Score (ConfusionMatrix ((tn, fp), (0, 0))) = ''N/A''
   \<and> ConfusionMatrix ((5, 0), (3, 0)) =
       \<lparr>accuracy = ''62.5'', precision = ''NaN'', recall = ''0.0'', f1Score = ''N/A''\<rparr>"
proof -
  have a: "precision (ConfusionMatrix ((tn, 0), (fn, 0))) = ''NaN''"
    by (simp add: ConfusionMatrix_def num_def Let_def)
  have b: "f1Score (ConfusionMatrix ((tn, 0), (fn, 0))) = ''N/A''"
    by (simp add: ConfusionMatrix_def num_def Let_def parseFloat_NaN)
  have c: "recall (ConfusionMatrix ((tn, fp), (0, 0))) = ''NaN''"
    by (simp add: ConfusionMatrix_def num_def Let_def)
  have d: "f1Score (ConfusionMatrix ((tn, fp), (0, 0))) = ''N/A''"
    by (simp add: ConfusionMatrix_def num_def Let_def parseFloat_NaN js_add_NaN_right)
  have e: "ConfusionMatrix ((5, 0), (3, 0)) =
       \<lparr>accuracy = ''62.5'', precision = ''NaN'', recall = ''0.0'', f1Score = ''N/A''\<rparr>"
    by (simp add: ConfusionMatrix_def num_def print_eval parse_eval)
  from a b c d e show ?thesis by blast
qed

section \<open>The confidence as a percentage\<close>





section \<open>The per-epoch series\<close>

lemma chartData_length: "length (chartData m) = length (epochs m)"
  by (simp add: chartData_def)

lemma chartData_epochs: "map epoch (chartData m) = epochs m"
proof -
  have "map epoch (chartData m) = map snd (enumerate 0 (epochs m))"
    by (simp add: chartData_def case_prod_unfold comp_def)
  then show ?thesis by simp
qed

lemma chartData_nth:
  assumes "i < length (epochs m)"
  shows "chartData m ! i =
           \<lparr>epoch = epochs m ! i,
            trainAccuracy = js_index (train_accuracy m) i,
            valAccuracy = js_index (val_accuracy m) i,
            trainLoss = js_index (train_loss m) i,
            valLoss = js_index (val_loss m) i\<rparr>"
  using assms by (simp add: chartData_def nth_enumerate_eq)

text \<open>
  Claim C9. When the four curves are as long as \<open>epochs\<close>, \<open>chartData\<close> has one record for
  each epoch, in the order of \<open>epochs\<close>, and the record at an index carries the epoch and
  the four values of the curves at that index, all of them present. So a report of ten
  epochs \<open>1..10\<close> gives ten records with the epochs \<open>1..10\<close> in order.
\<close>

theorem chartData_zips_by_index:
  assumes "length (train_accuracy m) = length (epochs m)"
    and "length (val_accuracy m) = length (epochs m)"
    and "length (train_loss m) = length (epochs m)"
    and "length (val_loss m) = length (epochs m)"
  shows "length (chartData m) = length (epochs m)
     \<and> map epoch (chartData m) = epochs m
     \<and> (\<forall>i < length (epochs m).
          chartData m ! i =
            \<lparr>epoch = epochs m ! i,
             trainAccuracy = Some (train_accuracy m ! i),
             valAccuracy = Some (val_accuracy m ! i),
             trainLoss = Some (train_loss m ! i),
             valLoss = Some (val_loss m ! i)\<rparr>)
     \<and> (epochs m = [1, 2, 3, 4, 5, 6, 7, 8, 9, 10] \<longrightarrow>
          length (chartData m) = 10
          \<and> map epoch (chartData m) = [1, 2, 3, 4, 5, 6, 7, 8, 9, 10])"
proof -
  have nth: "\<forall>i < length (epochs m).
          chartData m ! i =
            \<lparr>epoch = epochs m ! i,
             trainAccuracy = Some (train_accuracy m ! i),
             valAccuracy = Some (val_accuracy m ! i),
             trainLoss = Some (train_loss m ! i),
             valLoss = Some (val_loss m ! i)\<rparr>"
    using assms by (simp add: chartData_nth js_index_def)
  have ten: "epochs m = [1, 2, 3, 4, 5, 6, 7, 8, 9, 10] \<longrightarrow>
          length (chartData m) = 10
          \<and> map epoch (chartData m) = [1, 2, 3, 4, 5, 6, 7, 8, 9, 10]"
    by (simp add: chartData_length chartData_epochs)
  from nth ten show ?thesis
    by (simp add: chartData_length chartData_epochs)
qed

theorem chartData_zips_by_index_witness:
  "length (chartData mockGetMetrics) = 10
   \<and> map epoch (chartData mockGetMetrics) = [1, 2, 3, 4, 5, 6, 7, 8, 9, 10]
   \<and> chartData mockGetMetrics ! 0 =
       \<lparr>epoch = 1, trainAccuracy = Some (52 / 100), valAccuracy = Some (50 / 100),
        trainLoss = Some (95 / 100), valLoss = Some (98 / 100)\<rparr>
   \<and> chartData mockGetMetrics ! 9 =
       \<lparr>epoch = 10, trainAccuracy = Some (95 / 100), valAccuracy = Some (89 / 100),
        trainLoss = Some (16 / 100), valLoss = Some (34 / 100)\<rparr>"
  using chartData_zips_by_index [of mockGetMetrics] by (simp add: mockGetMetrics_def)

section \<open>Validation before dispatch\<close>

lemma validate_messages_rejects:
  "\<exists>m \<in> set ms. \<not> truthy (role m) \<or> \<not> truthy (content m) \<Longrightarrow>
     validate_messages ms = Some (Error ''Each message must have a role and content'')"
  by (induction ms) auto

lemma validate_messages_accepts:
  "\<forall>m \<in> set ms. truthy (role m) \<and> truthy (content m) \<Longrightarrow> validate_messages ms = None"
  by (induction ms) auto

text \<open>
  Claim C7. \<open>sendChatMessage\<close> throws a plain error, and issues no request, when its
  argument is not an array, is the empty array, or holds a message without a role or
  without a content; \<open>chat([])\<close> and \<open>chat([{role: "user"}])\<close> are two such calls.
\<close>

theorem sendChatMessage_validates_before_request:
  "(messages = NotAnArray \<or> messages = JsArray []
      \<or> (\<exists>ms. messages = JsArray ms \<and> (\<exists>m \<in> set ms. role m = None \<or> content m = None)))
     \<longrightarrow> (\<exists>msg. sendChatMessage T messages sent = (Inl (Error msg), sent))"
proof (intro impI)
  assume h: "messages = NotAnArray \<or> messages = JsArray []
      \<or> (\<exists>ms. messages = JsArray ms \<and> (\<exists>m \<in> set ms. role m = None \<or> content m = None))"
  then consider (na) "messages = NotAnArray" | (empty) "messages = JsArray []"
    | (bad) ms where "messages = JsArray ms" "\<exists>m \<in> set ms. role m = None \<or> content m = None"
    by blast
  then show "\<exists>msg. sendChatMessage T messages sent = (Inl (Error msg), sent)"
  proof cases
    case na
    then show ?thesis by (simp add: sendChatMessage_def)
  next
    case empty
    then show ?thesis by (simp add: sendChatMessage_def)
  next
    case bad
    from bad(2) obtain m where m: "m \<in> set ms" "role m = None \<or> content m = None"
      by blast
    from m(2) have "\<not> truthy (role m) \<or> \<not> truthy (content m)"
      by (auto simp: truthy_def)
    with m(1) have "\<exists>m \<in> set ms. \<not> truthy (role m) \<or> \<not> truthy (content m)"
      by blast
    then have "validate_messages ms = Some (Error ''Each message must have a role and content'')"
      by (rule validate_messages_rejects)
    with bad(1) show ?thesis by (simp add: sendChatMessage_def)
  qed
qed

theorem sendChatMessage_validates_before_request_witness:
  "sendChatMessage (\<lambda>req. Fulfilled \<lparr>status = 200, data = ()\<rparr>) NotAnArray [] = (Inl (Error ''Messages array is required''), [])
  \<and> sendChatMessage (\<lambda>req. Fulfilled \<lparr>status = 200, data = ()\<rparr>) (JsArray []) [] = (Inl (Error ''Messages array is required''), [])
  \<and> sendChatMessage (\<lambda>req. Fulfilled \<lparr>status = 200, data = ()\<rparr>)
       (JsArray [\<lparr>role = Some ''user'', content = None\<rparr>]) [] =
       (Inl (Error ''Each message must have a role and content''), [])"
  using sendChatMessage_validates_before_request [of NotAnArray "\<lambda>req. Fulfilled \<lparr>status = 200, data = ()\<rparr>" "[]"]
    sendChatMessage_validates_before_request [of "JsArray []" "\<lambda>req. Fulfilled \<lparr>status = 200, data = ()\<rparr>" "[]"]
    sendChatMessage_validates_before_request [of "JsArray [\<lparr>role = Some ''user'', content = None\<rparr>]" "\<lambda>req. Fulfilled \<lparr>status = 200, data = ()\<rparr>" "[]"]
  by (simp add: sendChatMessage_def truthy_def)

section \<open>Requests and the errors they deliver\<close>

lemma or_literal_nonempty: "d \<noteq> [] \<Longrightarrow> or_literal a d \<noteq> []"
  by (simp add: or_literal_def split: option.splits)

lemma rejected_is_standardError:
  "T req = Rejected e \<Longrightarrow> response_data (apiClient T req sent) = (Inl (standardError e), sent @ [req])"
  by (simp add: response_data_def apiClient_def responseInterceptor_def)

lemma fulfilled_is_data:
  "T req = Fulfilled r \<Longrightarrow> response_data (apiClient T req sent) = (Inr (data r), sent @ [req])"
  by (simp add: response_data_def apiClient_def responseInterceptor_def)

lemma snd_response_data: "snd (response_data (apiClient T req sent)) = sent @ [req]"
  by (cases "T req") (simp_all add: rejected_is_standardError fulfilled_is_data)

text \<open>
  Claim C3. A file whose type is not JPEG, PNG, WebP or GIF, or whose size is above
  \<open>10 * 1024 * 1024\<close> bytes, makes \<open>uploadImageAndPredict\<close> throw a plain error with no
  request issued; a file that passes both checks leads to exactly one request, the
  multipart \<open>POST\<close> of the file to \<open>/api/predict\<close>.
\<close>

theorem uploadImageAndPredict_validates_before_request:
  "(file_type f \<notin> set validTypes \<or> maxSize < file_size f \<longrightarrow>
      (\<exists>msg. uploadImageAndPredict T (Some f) sent = (Inl (Error msg), sent)))
   \<and> (file_type f \<in> set validTypes \<and> file_size f \<le> maxSize \<longrightarrow>
        snd (uploadImageAndPredict T (Some f) sent) = sent @ [predict_request f]
        \<and> req_method (predict_request f) = POST
        \<and> req_url (predict_request f) = ''/api/predict''
        \<and> req_body (predict_request f) = FormData [(''image'', f)]
        \<and> req_content_type (predict_request f) = Some ''multipart/form-data'')
   \<and> set validTypes = {''image/jpeg'', ''image/png'', ''image/webp'', ''image/gif''}
   \<and> maxSize = 10485760"
proof -
  have a: "file_type f \<notin> set validTypes \<or> maxSize < file_size f \<longrightarrow>
      (\<exists>msg. uploadImageAndPredict T (Some f) sent = (Inl (Error msg), sent))"
    by (simp add: uploadImageAndPredict_def)
  have b: "file_type f \<in> set validTypes \<and> file_size f \<le> maxSize \<longrightarrow>
        snd (uploadImageAndPredict T (Some f) sent) = sent @ [predict_request f]"
    by (simp add: uploadImageAndPredict_def snd_response_data)
  have c: "set validTypes = {''image/jpeg'', ''image/png'', ''image/webp'', ''image/gif''}"
    by (simp add: validTypes_def)
  have d: "maxSize = 10485760"
    by (simp add: maxSize_def)
  from a b c d show ?thesis by (simp add: predict_request_def)
qed

theorem uploadImageAndPredict_validates_before_request_witness:
  "maxSize < file_size \<lparr>file_type = ''image/png'', file_size = 15728640\<rparr>
   \<and> uploadImageAndPredict (\<lambda>req. Fulfilled \<lparr>status = 200, data = ()\<rparr>)
     (Some \<lparr>file_type = ''image/png'', file_size = 15728640\<rparr>) [] =
     (Inl (Error ''File too large. Maximum size is 10MB.''), [])
   \<and> file_type \<lparr>file_type = ''text/plain'', file_size = 12\<rparr> \<notin> set validTypes
   \<and> uploadImageAndPredict (\<lambda>req. Fulfilled \<lparr>status = 200, data = ()\<rparr>)
     (Some \<lparr>file_type = ''text/plain'', file_size = 12\<rparr>) [] =
     (Inl (Error ''Invalid file type. Please upload a JPEG, PNG, WebP, or GIF image.''), [])
   \<and> file_type \<lparr>file_type = ''image/png'', file_size = 10485760\<rparr> \<in> set validTypes
   \<and> file_size \<lparr>file_type = ''image/png'', file_size = 10485760\<rparr> \<le> maxSize
   \<and> snd (uploadImageAndPredict (\<lambda>req. Fulfilled \<lparr>status = 200, data = ()\<rparr>)
     (Some \<lparr>file_type = ''image/png'', file_size = 10485760\<rparr>) []) =
     [predict_request \<lparr>file_type = ''image/png'', file_size = 10485760\<rparr>]"
proof -
  let ?T = "\<lambda>req :: request. (Fulfilled \<lparr>status = 200, data = ()\<rparr> :: unit outcome)"
  let ?big = "\<lparr>file_type = ''image/png'', file_size = 15728640\<rparr>"
  let ?txt = "\<lparr>file_type = ''text/plain'', file_size = 12\<rparr>"
  let ?ok = "\<lparr>file_type = ''image/png'', file_size = 10485760\<rparr>"
  have big: "maxSize < file_size ?big"
    by (simp add: maxSize_def)
  have plain: "file_type ?txt \<notin> set validTypes"
    by (simp add: validTypes_def)
  have ok: "file_type ?ok \<in> set validTypes \<and> file_size ?ok \<le> maxSize"
    by (simp add: validTypes_def maxSize_def)
  from big uploadImageAndPredict_validates_before_request [of ?big ?T "[]"]
  obtain m1 where m1: "uploadImageAndPredict ?T (Some ?big) [] = (Inl (Error m1), [])"
    by blast
  have r1: "uploadImageAndPredict ?T (Some ?big) [] =
      (Inl (Error ''File too large. Maximum size is 10MB.''), [])"
    by (simp add: uploadImageAndPredict_def validTypes_def maxSize_def)
  from plain uploadImageAndPredict_validates_before_request [of ?txt ?T "[]"]
  obtain m2 where m2: "uploadImageAndPredict ?T (Some ?txt) [] = (Inl (Error m2), [])"
    by blast
  have r2: "uploadImageAndPredict ?T (Some ?txt) [] =
      (Inl (Error ''Invalid file type. Please upload a JPEG, PNG, WebP, or GIF image.''), [])"
    by (simp add: uploadImageAndPredict_def validTypes_def)
  from ok uploadImageAndPredict_validates_before_request [of ?ok ?T "[]"]
  have "snd (uploadImageAndPredict ?T (Some ?ok) []) = [] @ [predict_request ?ok]"
    by blast
  then have r3: "snd (uploadImageAndPredict ?T (Some ?ok) []) = [predict_request ?ok]"
    by simp
  from big plain ok r1 r2 r3 show ?thesis by blast
qed

text \<open>
  Claim C2. The error that the interceptor delivers for a rejected request is one
  \<open>StandardError\<close>. Its message is the body's \<open>error\<close> field when that is a non-empty
  string, else the body's \<open>message\<close> field, else the message of the transport error, else
  the fixed fallback text, and it is never empty. Its status is the status of the
  response when there is a response (with a status other than \<open>0\<close>) and \<open>500\<close> otherwise.
  Each of the five operations delivers exactly this error when its request is rejected.
\<close>

theorem interceptor_normalises_errors:
  "(\<exists>msg st. standardError e = StandardError msg st e
      \<and> (truthy (data_error e) \<longrightarrow> Some msg = data_error e)
      \<and> (\<not> truthy (data_error e) \<and> truthy (data_message e) \<longrightarrow> Some msg = data_message e)
      \<and> (\<not> truthy (data_error e) \<and> \<not> truthy (data_message e) \<and> truthy (err_message e) \<longrightarrow>
            Some msg = err_message e)
      \<and> (\<not> truthy (data_error e) \<and> \<not> truthy (data_message e) \<and> \<not> truthy (err_message e) \<longrightarrow>
            msg = ''An unexpected error occurred'')
      \<and> (\<forall>r. err_response e = Some r \<and> status r \<noteq> 0 \<longrightarrow> st = status r)
      \<and> (err_response e = None \<longrightarrow> st = 500)
      \<and> msg \<noteq> [])
   \<and> (T req = Rejected e \<longrightarrow> apiClient T req sent = (Inl (standardError e), sent @ [req]))
   \<and> (T (get_request ''/api/metrics'') = Rejected e \<longrightarrow> fst (getMetrics T sent) = Inl (standardError e))
   \<and> (T (get_request ''/api/health'') = Rejected e \<longrightarrow> fst (checkHealth T sent) = Inl (standardError e))
   \<and> (file_type f \<in> set validTypes \<and> file_size f \<le> maxSize \<and> T (predict_request f) = Rejected e \<longrightarrow>
        fst (uploadImageAndPredict T (Some f) sent) = Inl (standardError e))
   \<and> (t \<noteq> [] \<and> T (summary_request t c) = Rejected e \<longrightarrow>
        fst (summarizeText T (Some t) (Some c) sent) = Inl (standardError e))
   \<and> (ms \<noteq> [] \<and> (\<forall>m \<in> set ms. truthy (role m) \<and> truthy (content m)) \<and> T (chat_request ms) = Rejected e \<longrightarrow>
        fst (sendChatMessage T (JsArray ms) sent) = Inl (standardError e))"
proof -
  define msg where
    "msg = or_literal (js_or (js_or (data_error e) (data_message e)) (err_message e))
             ''An unexpected error occurred''"
  define st where
    "st = (case err_response e of None \<Rightarrow> 500 | Some r \<Rightarrow> if status r \<noteq> 0 then status r else 500)"
  have eq: "standardError e = StandardError msg st e"
    by (simp add: standardError_def msg_def st_def)
  have m1: "truthy (data_error e) \<longrightarrow> Some msg = data_error e"
    by (auto simp: msg_def truthy_def js_or_def or_literal_def split: option.splits)
  have m2: "\<not> truthy (data_error e) \<and> truthy (data_message e) \<longrightarrow> Some msg = data_message e"
    by (auto simp: msg_def truthy_def js_or_def or_literal_def split: option.splits)
  have m3: "\<not> truthy (data_error e) \<and> \<not> truthy (data_message e) \<and> truthy (err_message e) \<longrightarrow>
            Some msg = err_message e"
    by (auto simp: msg_def truthy_def js_or_def or_literal_def split: option.splits)
  have m4: "\<not> truthy (data_error e) \<and> \<not> truthy (data_message e) \<and> \<not> truthy (err_message e) \<longrightarrow>
            msg = ''An unexpected error occurred''"
    by (auto simp: msg_def truthy_def js_or_def or_literal_def split: option.splits)
  have s1: "\<forall>r. err_response e = Some r \<and> status r \<noteq> 0 \<longrightarrow> st = status r"
    by (simp add: st_def)
  have s2: "err_response e = None \<longrightarrow> st = 500"
    by (simp add: st_def)
  have ne: "msg \<noteq> []"
    unfolding msg_def by (rule or_literal_nonempty) simp
  have shape: "\<exists>msg st. standardError e = StandardError msg st e
      \<and> (truthy (data_error e) \<longrightarrow> Some msg = data_error e)
      \<and> (\<not> truthy (data_error e) \<and> truthy (data_message e) \<longrightarrow> Some msg = data_message e)
      \<and> (\<not> truthy (data_error e) \<and> \<not> truthy (data_message e) \<and> truthy (err_message e) \<longrightarrow>
            Some msg = err_message e)
      \<and> (\<not> truthy (data_error e) \<and> \<not> truthy (data_message e) \<and> \<not> truthy (err_message e) \<longrightarrow>
            msg = ''An unexpected error occurred'')
      \<and> (\<forall>r. err_response e = Some r \<and> status r \<noteq> 0 \<longrightarrow> st = status r)
      \<and> (err_response e = None \<longrightarrow> st = 500)
      \<and> msg \<noteq> []"
  proof (intro exI conjI)
    show "standardError e = StandardError msg st e" by (rule eq)
  qed (rule m1 m2 m3 m4 s1 s2 ne)+
  have c0: "T req = Rejected e \<longrightarrow> apiClient T req sent = (Inl (standardError e), sent @ [req])"
    by (simp add: apiClient_def responseInterceptor_def)
  have c1: "T (get_request ''/api/metrics'') = Rejected e \<longrightarrow> fst (getMetrics T sent) = Inl (standardError e)"
    by (simp add: getMetrics_def rejected_is_standardError)
  have c2: "T (get_request ''/api/health'') = Rejected e \<longrightarrow> fst (checkHealth T sent) = Inl (standardError e)"
    by (simp add: checkHealth_def rejected_is_standardError)
  have c3: "file_type f \<in> set validTypes \<and> file_size f \<le> maxSize \<and> T (predict_request f) = Rejected e \<longrightarrow>
        fst (uploadImageAndPredict T (Some f) sent) = Inl (standardError e)"
    by (simp add: uploadImageAndPredict_def rejected_is_standardError)
  have c4: "t \<noteq> [] \<and> T (summary_request t c) = Rejected e \<longrightarrow>
        fst (summarizeText T (Some t) (Some c) sent) = Inl (standardError e)"
    by (simp add: summarizeText_def rejected_is_standardError)
  have c5: "ms \<noteq> [] \<and> (\<forall>m \<in> set ms. truthy (role m) \<and> truthy (content m)) \<and> T (chat_request ms) = Rejected e \<longrightarrow>
        fst (sendChatMessage T (JsArray ms) sent) = Inl (standardError e)"
    by (simp add: sendChatMessage_def validate_messages_accepts rejected_is_standardError)
  from shape c0 c1 c2 c3 c4 c5 show ?thesis by blast
qed

theorem interceptor_normalises_errors_witness:
  "standardError \<lparr>err_response = None, err_message = Some ''Network Error''\<rparr> =
     StandardError ''Network Error'' 500 \<lparr>err_response = None, err_message = Some ''Network Error''\<rparr>
   \<and> standardError \<lparr>err_response = None, err_message = None\<rparr> =
     StandardError ''An unexpected error occurred'' 500 \<lparr>err_response = None, err_message = None\<rparr>
   \<and> standardError
       \<lparr>err_response = Some \<lparr>status = 404, data = Some \<lparr>body_error = Some ''Not found'', body_message = Some ''gone''\<rparr>\<rparr>,
        err_message = Some ''Request failed with status code 404''\<rparr> =
     StandardError ''Not found'' 404
       \<lparr>err_response = Some \<lparr>status = 404, data = Some \<lparr>body_error = Some ''Not found'', body_message = Some ''gone''\<rparr>\<rparr>,
        err_message = Some ''Request failed with status code 404''\<rparr>
   \<and> standardError
       \<lparr>err_response = Some \<lparr>status = 503, data = Some \<lparr>body_error = None, body_message = Some ''busy''\<rparr>\<rparr>,
        err_message = Some ''Request failed with status code 503''\<rparr> =
     StandardError ''busy'' 503
       \<lparr>err_response = Some \<lparr>status = 503, data = Some \<lparr>body_error = None, body_message = Some ''busy''\<rparr>\<rparr>,
        err_message = Some ''Request failed with status code 503''\<rparr>
   \<and> fst (getMetrics (\<lambda>req. Rejected \<lparr>err_response = None, err_message = Some ''Network Error''\<rparr> :: unit outcome) []) =
       Inl (StandardError ''Network Error'' 500 \<lparr>err_response = None, err_message = Some ''Network Error''\<rparr>)
   \<and> fst (checkHealth (\<lambda>req. Rejected \<lparr>err_response = None, err_message = Some ''Network Error''\<rparr> :: unit outcome) []) =
       Inl (StandardError ''Network Error'' 500 \<lparr>err_response = None, err_message = Some ''Network Error''\<rparr>)
   \<and> fst (uploadImageAndPredict (\<lambda>req. Rejected \<lparr>err_response = None, err_message = Some ''Network Error''\<rparr> :: unit outcome)
          (Some \<lparr>file_type = ''image/png'', file_size = 2048\<rparr>) []) =
       Inl (StandardError ''Network Error'' 500 \<lparr>err_response = None, err_message = Some ''Network Error''\<rparr>)
   \<and> fst (summarizeText (\<lambda>req. Rejected \<lparr>err_response = None, err_message = Some ''Network Error''\<rparr> :: unit outcome)
          (Some ''result'') (Some ''image'') []) =
       Inl (StandardError ''Network Error'' 500 \<lparr>err_response = None, err_message = Some ''Network Error''\<rparr>)
   \<and> fst (sendChatMessage (\<lambda>req. Rejected \<lparr>err_response = None, err_message = Some ''Network Error''\<rparr> :: unit outcome)
          (JsArray [\<lparr>role = Some ''user'', content = Some ''why''\<rparr>]) []) =
       Inl (StandardError ''Network Error'' 500 \<lparr>err_response = None, err_message = Some ''Network Error''\<rparr>)"
proof -
  let ?net = "\<lparr>err_response = None, err_message = Some ''Network Error''\<rparr>"
  let ?bare = "\<lparr>err_response = None, err_message = None\<rparr>"
  let ?nf = "\<lparr>err_response = Some \<lparr>status = 404, data = Some \<lparr>body_error = Some ''Not found'', body_message = Some ''gone''\<rparr>\<rparr>,
        err_message = Some ''Request failed with status code 404''\<rparr>"
  let ?busy = "\<lparr>err_response = Some \<lparr>status = 503, data = Some \<lparr>body_error = None, body_message = Some ''busy''\<rparr>\<rparr>,
        err_message = Some ''Request failed with status code 503''\<rparr>"
  let ?T = "\<lambda>req :: request. (Rejected ?net :: unit outcome)"
  have a: "standardError ?net = StandardError ''Network Error'' 500 ?net"
    using interceptor_normalises_errors [of ?net ?T "get_request ''/api/metrics''" "[]"]
    by (auto simp: truthy_def data_error_def data_message_def)
  have b: "standardError ?bare = StandardError ''An unexpected error occurred'' 500 ?bare"
    using interceptor_normalises_errors [of ?bare ?T "get_request ''/api/metrics''" "[]"]
    by (auto simp: truthy_def data_error_def data_message_def)
  have c: "standardError ?nf = StandardError ''Not found'' 404 ?nf"
    using interceptor_normalises_errors [of ?nf ?T "get_request ''/api/metrics''" "[]"]
    by (auto simp: truthy_def data_error_def data_message_def)
  have d: "standardError ?busy = StandardError ''busy'' 503 ?busy"
    using interceptor_normalises_errors [of ?busy ?T "get_request ''/api/metrics''" "[]"]
    by (auto simp: truthy_def data_error_def data_message_def)
  let ?png = "\<lparr>file_type = ''image/png'', file_size = 2048\<rparr>"
  let ?ms = "[\<lparr>role = Some ''user'', content = Some ''why''\<rparr>]"
  note ops = interceptor_normalises_errors
    [of ?net ?T "get_request ''/api/metrics''" "[]" ?png "''result''" "''image''" ?ms]
  have png: "file_type ?png \<in> set validTypes \<and> file_size ?png \<le> maxSize"
    by (simp add: validTypes_def maxSize_def)
  have ms: "?ms \<noteq> [] \<and> (\<forall>m \<in> set ?ms. truthy (role m) \<and> truthy (content m))"
    by (simp add: truthy_def)
  have e: "fst (getMetrics ?T []) = Inl (standardError ?net)"
    using ops by simp
  have f: "fst (checkHealth ?T []) = Inl (standardError ?net)"
    using ops by simp
  have g: "fst (uploadImageAndPredict ?T (Some ?png) []) = Inl (standardError ?net)"
    using ops png by blast
  have h: "fst (summarizeText ?T (Some ''result'') (Some ''image'') []) = Inl (standardError ?net)"
    using ops by simp
  have i: "fst (sendChatMessage ?T (JsArray ?ms) []) = Inl (standardError ?net)"
    using ops ms by blast
  from a b c d e f g h i show ?thesis by simp
qed

end
